theory Spec2Isabelle
  imports Complex_Main "HOL-Library.AList" "HOL-Library.Multiset"
begin

unbundle bit_operations_syntax

section \<open>Conventions of the embedding\<close>

text \<open>
  The Python sources are \<^verbatim>\<open>server/models/phishing_detector.py\<close>,
  \<^verbatim>\<open>server/models/explainer.py\<close> and \<^verbatim>\<open>server/utils/feature_extractor.py\<close>.

  \<^item> A Python \<^verbatim>\<open>float\<close> is modelled as a \<^typ>\<open>real\<close>. In the scorer the formulas of
    the code are kept and rounding is not modelled; \<^verbatim>\<open>math.exp\<close> is \<^const>\<open>exp\<close>. In the
    explainer every operation is rounded to the nearest double.
  \<^item> A Python \<^verbatim>\<open>dict\<close> is an association list in insertion order; iterating
    \<^verbatim>\<open>d.items()\<close> walks the list, \<^verbatim>\<open>d[k] = v\<close> is \<^const>\<open>AList.update\<close> (replace in
    place, or append), \<^verbatim>\<open>d.get(k, dflt)\<close> reads \<^const>\<open>map_of\<close>. The keys of a
    dictionary are distinct.
  \<^item> A Python \<^verbatim>\<open>str\<close> is a \<^typ>\<open>string\<close>; a character stands for the code point of
    the same number (0 to 255).
  \<^item> An exception is a value of the type \<open>error\<close>; a function that can raise returns
    \<open>Inl\<close> of the exception or \<open>Inr\<close> of its result. \<^verbatim>\<open>math.log2\<close> is \<^term>\<open>log 2\<close>.
\<close>

type_synonym features = "(string \<times> real) list"

section \<open>The scorer: \<^verbatim>\<open>PhishingDetector\<close>\<close>

subsection \<open>Fixed tables\<close>

definition feature_weights :: "(string \<times> real) list" where
  "feature_weights =
    [(''hasIPAddress'', 0.95),
     (''urlLength'', 0.5),
     (''hasAtSymbol'', 0.8),
     (''hasManySubdomains'', 0.8),
     (''hasSuspiciousTLD'', 0.9),
     (''hasHyphens'', 0.6),
     (''hasBrandImpersonation'', 0.95),
     (''hasRedirectPattern'', 0.8),
     (''hasDeceptiveHostname'', 0.95),
     (''hasPasswordField'', 0.8),
     (''hasSensitiveKeywords'', 0.7),
     (''mismatchedFormAction'', 0.95),
     (''hasLoginForm'', 0.7),
     (''hasExternalScripts'', 0.7),
     (''hasObfuscatedCode'', 0.85),
     (''hasFaviconMismatch'', 0.8),
     (''hasHiddenElements'', 0.8),
     (''isNotHttps'', 0.85),
     (''hasCertificateIssues'', 0.9),
     (''domainAge'', 0.8),
     (''lowAlexaRank'', 0.7)]"

text \<open>\<^verbatim>\<open>self.feature_weights.get(feature, 0)\<close>\<close>

definition weight_of :: "string \<Rightarrow> real" where
  "weight_of feature = (case map_of feature_weights feature of None \<Rightarrow> 0 | Some w \<Rightarrow> w)"

definition critical_features :: "string list" where
  "critical_features =
    [''hasIPAddress'', ''hasBrandImpersonation'', ''mismatchedFormAction'',
     ''hasDeceptiveHostname'', ''isNotHttps'']"

definition feature_explanations :: "(string \<times> string) list" where
  "feature_explanations =
    [(''hasIPAddress'', ''Website uses an IP address instead of a domain name (common phishing tactic)''),
     (''urlLength'', ''Unusually long URL that may be hiding redirects or suspicious parameters''),
     (''hasAtSymbol'', ''URL contains @ symbol which can be used to hide the actual destination''),
     (''hasManySubdomains'', ''URL has multiple subdomains, often used to create legitimate-looking URLs''),
     (''hasSuspiciousTLD'', ''Website uses a suspicious or uncommon top-level domain associated with phishing''),
     (''hasHyphens'', ''Domain contains multiple hyphens, common in fake domains''),
     (''hasBrandImpersonation'', ''URL contains a popular brand name but isn't the official domain''),
     (''hasRedirectPattern'', ''URL contains redirection patterns that may lead to malicious sites''),
     (''hasDeceptiveHostname'', ''Hostname designed to look like a legitimate website''),
     (''hasPasswordField'', ''Page contains password input fields requesting sensitive information''),
     (''hasLoginForm'', ''Page contains login form that may be collecting credentials''),
     (''hasSensitiveKeywords'', ''Page contains keywords related to account verification or financial information''),
     (''mismatchedFormAction'', ''Form submits data to a different domain than the current website''),
     (''hasExternalScripts'', ''Page loads scripts from suspicious external domains''),
     (''hasObfuscatedCode'', ''Page contains hidden or obfuscated code potentially hiding malicious behavior''),
     (''hasFaviconMismatch'', ''Website favicon doesn't match the claimed brand identity''),
     (''hasHiddenElements'', ''Page contains hidden elements that may be collecting data''),
     (''isNotHttps'', ''Website does not use secure HTTPS connection''),
     (''hasCertificateIssues'', ''Website has SSL certificate issues or mismatches''),
     (''domainAge'', ''Domain was registered very recently (common for phishing sites)''),
     (''lowAlexaRank'', ''Website has very low popularity/traffic, unusual for legitimate services'')]"

text \<open>\<^verbatim>\<open>_get_feature_explanation\<close>: \<^verbatim>\<open>explanations.get(feature, feature)\<close>\<close>

definition get_feature_explanation :: "string \<Rightarrow> string" where
  "get_feature_explanation feature =
    (case map_of feature_explanations feature of None \<Rightarrow> feature | Some e \<Rightarrow> e)"

subsection \<open>The verdict\<close>

datatype threat_level = Low | Medium | High

record verdict =
  isPhishing :: bool
  score :: real
  confidence :: real
  explanations :: "string list"
  threatLevel :: threat_level
  topFeatures :: "string list"

text \<open>\<^verbatim>\<open>_get_threat_level\<close>\<close>

definition get_threat_level :: "real \<Rightarrow> threat_level" where
  "get_threat_level s = (if s < 0.25 then Low else if s < 0.55 then Medium else High)"

subsection \<open>\<^verbatim>\<open>predict\<close>\<close>

text \<open>
  The scoring loop \<^verbatim>\<open>for feature, value in features.items()\<close>. Its state is
  \<^verbatim>\<open>(score, total_weight, feature_contributions)\<close>.
\<close>

fun predict_loop ::
  "features \<Rightarrow> real \<times> real \<times> (string \<times> real) list \<Rightarrow> real \<times> real \<times> (string \<times> real) list"
where
  "predict_loop [] st = st"
| "predict_loop ((feature, v) # rest) (sc, total_weight, feature_contributions) =
    (let weight = weight_of feature;
         contribution =
           (if feature \<in> set critical_features \<and> v > 0.5 then v * weight * 1.5
            else v * weight)
     in predict_loop rest
          (sc + contribution, total_weight + weight,
           AList.update feature contribution feature_contributions))"

text \<open>The score after normalisation, before the sigmoid.\<close>

definition weighted_score :: "features \<Rightarrow> real" where
  "weighted_score fs =
    (case predict_loop fs (0, 0, []) of
       (sc, total_weight, _) \<Rightarrow> if total_weight > 0 then sc / total_weight else 0)"

text \<open>
  \<^verbatim>\<open>sum(1 for feature, value in features.items()
        if value > 0.5 and self.feature_weights.get(feature, 0) > 0.7)\<close>
\<close>

definition suspicious_count :: "features \<Rightarrow> int" where
  "suspicious_count fs = int (length (filter (\<lambda>(feature, v). v > 0.5 \<and> weight_of feature > 0.7) fs))"

text \<open>The score that is classified: sigmoid, then the combination bonus.\<close>

definition final_score :: "features \<Rightarrow> real" where
  "final_score fs =
    (let s = 1 / (1 + exp (- 12 * (weighted_score fs - 0.4)));
         n = suspicious_count fs
     in if n \<ge> 3 then min (s + real_of_int (n - 2) * 0.1) 1.0 else s)"

text \<open>
  \<^verbatim>\<open>sorted([... if contribution > 0], key=lambda x: x[1], reverse=True)\<close>: Python's sort
  is stable also with \<^verbatim>\<open>reverse=True\<close>, as is \<^const>\<open>sort_key\<close> on the negated key.
\<close>

definition contributing_features :: "features \<Rightarrow> (string \<times> real) list" where
  "contributing_features fs =
    (case predict_loop fs (0, 0, []) of
       (_, _, feature_contributions) \<Rightarrow>
         sort_key (\<lambda>p. - snd p) (filter (\<lambda>(feature, contribution). contribution > 0) feature_contributions))"

definition predict :: "features \<Rightarrow> verdict" where
  "predict fs =
    (let sc = final_score fs;
         top = take 5 (contributing_features fs);
         top_explanations = map (\<lambda>(feature, _). get_feature_explanation feature) top;
         is_phishing = (sc > 0.45)
     in \<lparr> isPhishing = is_phishing,
          score = sc,
          confidence =
            (if is_phishing then min (max (\<bar>sc - 0.5\<bar> * 2) 0.6) 0.99
             else min (\<bar>sc - 0.5\<bar> * 2) 0.99),
          explanations = top_explanations,
          threatLevel = get_threat_level sc,
          topFeatures = map fst top \<rparr>)"

subsection \<open>The score as the specification words it\<close>

text \<open>
  A second definition, following the specification's sentences and not the code:
  contribution = value times weight, times 1.5 for a critical feature with value above
  0.5; raw score = sum of contributions over sum of weights, 0 when that sum is 0; the
  logistic squashing; the combination bonus.
\<close>

definition spec_contribution :: "string \<Rightarrow> real \<Rightarrow> real" where
  "spec_contribution feature v =
     v * weight_of feature * (if feature \<in> set critical_features \<and> v > 0.5 then 1.5 else 1)"

definition spec_raw_score :: "features \<Rightarrow> real" where
  "spec_raw_score fs =
     (if (\<Sum>(f, v)\<leftarrow>fs. weight_of f) = 0 then 0
      else (\<Sum>(f, v)\<leftarrow>fs. spec_contribution f v) / (\<Sum>(f, v)\<leftarrow>fs. weight_of f))"

definition spec_score :: "features \<Rightarrow> real" where
  "spec_score fs =
     (let s = 1 / (1 + exp (- 12 * (spec_raw_score fs - 0.4)));
          n = length (filter (\<lambda>(f, v). v > 0.5 \<and> weight_of f > 0.7) fs)
      in if n \<ge> 3 then min (s + 0.1 * real (n - 2)) 1.0 else s)"


section \<open>The explainer: \<^verbatim>\<open>Explainer.explain_prediction\<close>\<close>

subsection \<open>Double-precision arithmetic\<close>

text \<open>
  The explainer divides and multiplies, and a claim speaks of an exact sum, so here the
  rounding of Python's \<^verbatim>\<open>float\<close> (IEEE 754 binary64) is modelled: an operation returns
  the exact result rounded to the nearest double, ties to the even significand.

  \<open>round_half_even\<close> rounds a real to the nearest integer, ties to even.
\<close>

definition round_half_even :: "real \<Rightarrow> int" where
  "round_half_even y =
    (let n = \<lfloor>y\<rfloor>; d = y - of_int n
     in if d < 1 / 2 then n else if 1 / 2 < d then n + 1 else if even n then n else n + 1)"

text \<open>
  The binary exponent of a double: the \<open>e\<close> with \<open>2^e \<le> |x| < 2^(e+1)\<close>, searched upwards
  from the least exponent \<open>-1022\<close> of a normal number to the greatest one, \<open>1023\<close>. Below
  \<open>2^(-1022)\<close> the exponent stays \<open>-1022\<close> (subnormal numbers).
\<close>

fun exponent_search :: "nat \<Rightarrow> int \<Rightarrow> real \<Rightarrow> int" where
  "exponent_search 0 e x = e"
| "exponent_search (Suc n) e x = (if x < 2 powi (e + 1) then e else exponent_search n (e + 1) x)"

definition double_exponent :: "real \<Rightarrow> int" where
  "double_exponent x = exponent_search 2045 (- 1022) \<bar>x\<bar>"

text \<open>
  Rounding to a double: to the nearest multiple of the unit in the last place, which is
  \<open>2^(e - 52)\<close> (53 significant bits), so \<open>2^(-1074)\<close> for a subnormal number. Overflow to
  infinity is not modelled: it needs a result of at least \<open>2^1024\<close>, and the explainer, on
  values of at most 1, only forms sums of such values, quotients of at most 1 and their
  products with 100.
\<close>

definition round_double :: "real \<Rightarrow> real" where
  "round_double x =
    (let ulp = 2 powi (double_exponent x - 52)
     in of_int (round_half_even (x / ulp)) * ulp)"

subsection \<open>Fixed table\<close>

definition feature_descriptions :: "(string \<times> string) list" where
  "feature_descriptions =
    [(''hasIPAddress'', ''Use of IP address in URL''),
     (''urlLength'', ''Unusually long URL''),
     (''hasAtSymbol'', ''URL contains @ symbol''),
     (''hasManySubdomains'', ''Multiple subdomains''),
     (''hasSuspiciousTLD'', ''Suspicious top-level domain''),
     (''hasHyphens'', ''Multiple hyphens in domain''),
     (''hasPasswordField'', ''Password input field''),
     (''hasSensitiveKeywords'', ''Sensitive keywords''),
     (''mismatchedFormAction'', ''Form submits to different domain''),
     (''isNotHttps'', ''Non-secure connection''),
     (''hasCertificateIssues'', ''SSL certificate issues'')]"

text \<open>\<^verbatim>\<open>self.feature_descriptions.get(feature, feature)\<close>\<close>

definition description_of :: "string \<Rightarrow> string" where
  "description_of f = (case map_of feature_descriptions f of None \<Rightarrow> f | Some d \<Rightarrow> d)"

text \<open>One dictionary of the returned list.\<close>

record explanation_item =
  exp_feature :: string
  exp_description :: string
  exp_attribution :: real
  exp_value :: real

subsection \<open>\<^verbatim>\<open>explain_prediction\<close>\<close>

text \<open>
  The functions below take the rounding \<open>fl\<close> of one floating-point operation as a
  parameter; the program runs with \<^const>\<open>round_double\<close>.

  The first loop: \<^verbatim>\<open>attributions[feature] = value\<close> and
  \<^verbatim>\<open>total_attribution += value\<close> for the items with \<^verbatim>\<open>value > 0\<close>.
\<close>

fun attribution_loop ::
  "(real \<Rightarrow> real) \<Rightarrow> features \<Rightarrow> (string \<times> real) list \<times> real \<Rightarrow> (string \<times> real) list \<times> real"
where
  "attribution_loop fl [] st = st"
| "attribution_loop fl ((f, v) # rest) (attributions, total_attribution) =
    (if v > 0
     then attribution_loop fl rest (AList.update f v attributions, fl (total_attribution + v))
     else attribution_loop fl rest (attributions, total_attribution))"

text \<open>
  The second loop fills \<^verbatim>\<open>normalized_attributions\<close> with
  \<^verbatim>\<open>(attribution / total_attribution) * 100\<close>, a division and then a multiplication.
\<close>

fun normalize_loop ::
  "(real \<Rightarrow> real) \<Rightarrow> real \<Rightarrow> (string \<times> real) list \<Rightarrow> (string \<times> real) list \<Rightarrow> (string \<times> real) list"
where
  "normalize_loop fl total_attribution [] normalized = normalized"
| "normalize_loop fl total_attribution ((f, a) # rest) normalized =
    normalize_loop fl total_attribution rest
      (AList.update f (fl (fl (a / total_attribution) * 100)) normalized)"

text \<open>It runs only when \<^verbatim>\<open>total_attribution > 0\<close>.\<close>

definition normalized_attributions :: "(real \<Rightarrow> real) \<Rightarrow> features \<Rightarrow> (string \<times> real) list" where
  "normalized_attributions fl fs =
    (case attribution_loop fl fs ([], 0) of
       (attributions, total_attribution) \<Rightarrow>
         if total_attribution > 0 then normalize_loop fl total_attribution attributions [] else [])"

text \<open>
  The list comprehension, then \<^verbatim>\<open>sort(key=lambda x: x["attribution"], reverse=True)\<close>
  (a stable sort). \<^verbatim>\<open>features.get(feature, 0)\<close> reads the input mapping.
\<close>

definition explain_prediction_with :: "(real \<Rightarrow> real) \<Rightarrow> features \<Rightarrow> explanation_item list" where
  "explain_prediction_with fl fs =
    sort_key (\<lambda>e. - exp_attribution e)
      (map (\<lambda>(f, a).
              \<lparr> exp_feature = f,
                exp_description = description_of f,
                exp_attribution = a,
                exp_value = (case map_of fs f of None \<Rightarrow> 0 | Some v \<Rightarrow> v) \<rparr>)
           (normalized_attributions fl fs))"

text \<open>The program: every operation is rounded to a double.\<close>

definition explain_prediction :: "features \<Rightarrow> explanation_item list" where
  "explain_prediction fs = explain_prediction_with round_double fs"

text \<open>The same computation in exact arithmetic, with no rounding.\<close>

definition exact_explanation :: "features \<Rightarrow> explanation_item list" where
  "exact_explanation fs = explain_prediction_with (\<lambda>x. x) fs"

subsection \<open>The explanation as the specification words it\<close>

text \<open>
  The sum of all positive values of the mapping, added from left to right, each addition
  rounded by \<open>fl\<close>.
\<close>

definition total_positive :: "(real \<Rightarrow> real) \<Rightarrow> features \<Rightarrow> real" where
  "total_positive fl fs = foldl (\<lambda>t (f, v). fl (t + v)) 0 (filter (\<lambda>(f, v). v > 0) fs)"

text \<open>
  The item the specification describes for a feature with a positive value: its
  attribution is the value over the sum of all positive values, times 100.
\<close>

definition spec_item :: "(real \<Rightarrow> real) \<Rightarrow> features \<Rightarrow> string \<times> real \<Rightarrow> explanation_item" where
  "spec_item fl fs = (\<lambda>(f, v).
     \<lparr> exp_feature = f, exp_description = description_of f,
       exp_attribution = fl (fl (v / total_positive fl fs) * 100), exp_value = v \<rparr>)"

section \<open>Python string operations\<close>

text \<open>
  \<^verbatim>\<open>str.lower\<close> on the code points 0 to 255: the letters A to Z and the Latin-1 capitals
  (0xC0 to 0xDE without the multiplication sign 0xD7) move up by 32.
\<close>

definition lower_char :: "char \<Rightarrow> char" where
  "lower_char c =
    (let n = (of_char c :: nat)
     in if (65 \<le> n \<and> n \<le> 90) \<or> (192 \<le> n \<and> n \<le> 222 \<and> n \<noteq> 215) then char_of (n + 32) else c)"

definition lower :: "string \<Rightarrow> string" where
  "lower s = map lower_char s"

text \<open>\<^verbatim>\<open>s.startswith(p)\<close>, \<^verbatim>\<open>s.endswith(p)\<close> and \<^verbatim>\<open>sub in s\<close>\<close>

fun startswith :: "string \<Rightarrow> string \<Rightarrow> bool" where
  "startswith s [] = True"
| "startswith [] (p # ps) = False"
| "startswith (c # cs) (p # ps) = (c = p \<and> startswith cs ps)"

definition endswith :: "string \<Rightarrow> string \<Rightarrow> bool" where
  "endswith s p = startswith (rev s) (rev p)"

fun str_in :: "string \<Rightarrow> string \<Rightarrow> bool" where
  "str_in sub [] = (sub = [])"
| "str_in sub (c # cs) = (startswith (c # cs) sub \<or> str_in sub cs)"

text \<open>
  \<^verbatim>\<open>s.replace(old, new)\<close>: the occurrences of \<^verbatim>\<open>old\<close> are replaced from left to right
  and do not overlap; an empty \<^verbatim>\<open>old\<close> matches before every character and at the end.
\<close>

function str_replace :: "string \<Rightarrow> string \<Rightarrow> string \<Rightarrow> string" where
  "str_replace old new [] = (if old = [] then new else [])"
| "str_replace old new (c # cs) =
    (if old = [] then new @ c # str_replace old new cs
     else if startswith (c # cs) old
       then new @ str_replace old new (drop (length old) (c # cs))
     else c # str_replace old new cs)"
  by pat_completeness auto
termination
  by (relation "measure (\<lambda>(old, new, s). length s)") auto

text \<open>\<^verbatim>\<open>s.count(c)\<close> for a one-character string \<^verbatim>\<open>c\<close>\<close>

definition count_char :: "char \<Rightarrow> string \<Rightarrow> nat" where
  "count_char c s = length (filter (\<lambda>x. x = c) s)"

text \<open>
  \<^verbatim>\<open>s.split(sep)\<close> for a one-character separator and \<^verbatim>\<open>re.split(r'[.-]', s)\<close>: the
  string is cut at every separator character; the result is never empty.
\<close>

fun split_where :: "(char \<Rightarrow> bool) \<Rightarrow> string \<Rightarrow> string list" where
  "split_where P [] = [[]]"
| "split_where P (c # cs) =
    (if P c then [] # split_where P cs
     else (case split_where P cs of
             [] \<Rightarrow> [[c]]
           | p # ps \<Rightarrow> (c # p) # ps))"

definition split_on :: "char \<Rightarrow> string \<Rightarrow> string list" where
  "split_on sep s = split_where (\<lambda>c. c = sep) s"

text \<open>\<^verbatim>\<open>sep.join(parts)\<close>\<close>

fun join_with :: "string \<Rightarrow> string list \<Rightarrow> string" where
  "join_with sep [] = []"
| "join_with sep [p] = p"
| "join_with sep (p # q # ps) = p @ sep @ join_with sep (q # ps)"

section \<open>The feature extractor: \<^verbatim>\<open>FeatureExtractor\<close>\<close>

subsection \<open>Fixed tables\<close>

definition suspicious_tlds :: "string list" where
  "suspicious_tlds =
    [''.xyz'', ''.top'', ''.gq'', ''.ml'', ''.ga'', ''.cf'', ''.tk'', ''.info'',
     ''.work'', ''.pro'', ''.men'', ''.loan'', ''.click'', ''.date'', ''.racing'',
     ''.online'', ''.stream'', ''.win'', ''.review'', ''.vip'', ''.party'', ''.shop'',
     ''.gdn'', ''.bid'', ''.accountant'', ''.website'', ''.space'']"

definition popular_brands :: "string list" where
  "popular_brands =
    [''paypal'', ''apple'', ''microsoft'', ''amazon'', ''netflix'', ''facebook'',
     ''google'', ''instagram'', ''twitter'', ''gmail'', ''wellsfargo'', ''chase'',
     ''bankofamerica'', ''bank'', ''coinbase'', ''blockchain'', ''linkedin'',
     ''dropbox'', ''yahoo'', ''instagram'', ''spotify'', ''steam'', ''github'',
     ''outlook'', ''hotmail'', ''netflix'', ''office365'', ''protonmail'']"

definition tld_substitutions :: "(string \<times> string list) list" where
  "tld_substitutions =
    [(''.com'', [''.cm'', ''.co'', ''.om'', ''.commm'', ''.comm'', ''.com-secure'', ''.con'']),
     (''.org'', [''.ogr'', ''.or'', ''.arg'', ''.orgg'']),
     (''.net'', [''.ner'', ''.ne'', ''.nt'', ''.nett'']),
     (''.edu'', [''.ed'', ''.eu'', ''.eddu'']),
     (''.gov'', [''.gv'', ''.goo'', ''.gou'', ''.goc''])]"

subsection \<open>\<^verbatim>\<open>_calculate_entropy\<close>\<close>

text \<open>The loop \<^verbatim>\<open>char_count[char] = char_count.get(char, 0) + 1\<close>.\<close>

fun count_chars :: "string \<Rightarrow> (char \<times> nat) list \<Rightarrow> (char \<times> nat) list" where
  "count_chars [] char_count = char_count"
| "count_chars (c # cs) char_count =
    count_chars cs
      (AList.update c ((case map_of char_count c of None \<Rightarrow> 0 | Some n \<Rightarrow> n) + 1) char_count)"

text \<open>The loop \<^verbatim>\<open>entropy -= probability * math.log2(probability)\<close>.\<close>

fun entropy_loop :: "nat list \<Rightarrow> nat \<Rightarrow> real \<Rightarrow> real" where
  "entropy_loop [] len entropy = entropy"
| "entropy_loop (n # counts) len entropy =
    entropy_loop counts len
      (entropy - (real n / real len) * log 2 (real n / real len))"

definition calculate_entropy :: "string \<Rightarrow> real" where
  "calculate_entropy text =
    (if text = [] then 0
     else entropy_loop (map snd (count_chars text [])) (length text) 0)"

subsection \<open>\<^verbatim>\<open>_check_deceptive_hostname\<close>\<close>

definition check_deceptive_hostname :: "string \<Rightarrow> real" where
  "check_deceptive_hostname domain0 =
    (let domain = str_replace ''www.'' '''' (lower domain0);
         parts = split_on CHR ''.'' domain;
         has_tld_in_name =
           list_ex (\<lambda>tld. str_in (CHR ''.'' # drop 1 tld) domain)
             (suspicious_tlds @ [''.com'', ''.org'', ''.net'']);
         subdomain_entropy = (if length parts > 1 then calculate_entropy (hd parts) else 0);
         has_high_entropy = (subdomain_entropy > 3.5);
         is_long_domain = (length domain > 30);
         domain_without_tld =
           (if length parts > 1 then join_with ''.'' (butlast parts) else hd parts);
         tld = (if length parts > 1 then CHR ''.'' # last parts else []);
         has_misleading_tld =
           list_ex (\<lambda>(real_tld, fake_tlds).
               list_ex (\<lambda>brand. domain_without_tld = brand \<and> tld \<in> set fake_tlds)
                 popular_brands)
             tld_substitutions;
         score0 = (0 :: real);
         score1 = (if has_misleading_tld then max score0 1.0 else score0);
         score2 = (if has_tld_in_name then max score1 0.9 else score1)
     in if has_high_entropy \<and> is_long_domain then max score2 0.8
        else if has_high_entropy then max score2 0.7
        else if is_long_domain then max score2 0.5
        else score2)"

subsection \<open>\<^verbatim>\<open>_has_ip_address\<close> and \<^verbatim>\<open>_has_suspicious_tld\<close>\<close>

definition is_digit :: "char \<Rightarrow> bool" where
  "is_digit c = (48 \<le> (of_char c :: nat) \<and> (of_char c :: nat) \<le> 57)"

definition digits_1_3 :: "string \<Rightarrow> bool" where
  "digits_1_3 s = (1 \<le> length s \<and> length s \<le> 3 \<and> list_all is_digit s)"

text \<open>
  \<^verbatim>\<open>re.match(r"^\d{1,3}\.\d{1,3}\.\d{1,3}\.\d{1,3}$", domain)\<close>: the whole string is four
  groups of one to three digits; \<^verbatim>\<open>$\<close> also matches before one final newline.
\<close>

definition has_ip_address :: "string \<Rightarrow> bool" where
  "has_ip_address domain =
    (let s = (if domain \<noteq> [] \<and> last domain = CHR 0x0A then butlast domain else domain)
     in case split_on CHR ''.'' s of
          [a, b, c, d] \<Rightarrow> digits_1_3 a \<and> digits_1_3 b \<and> digits_1_3 c \<and> digits_1_3 d
        | _ \<Rightarrow> False)"

definition has_suspicious_tld :: "string \<Rightarrow> bool" where
  "has_suspicious_tld domain = list_ex (\<lambda>tld. endswith domain tld) suspicious_tlds"

subsection \<open>\<^verbatim>\<open>_string_similarity\<close>\<close>

definition string_similarity :: "string \<Rightarrow> string \<Rightarrow> real" where
  "string_similarity s1 s2 =
    (if s1 = [] \<or> s2 = [] then 0.0
     else
       (let t1 = lower s1; t2 = lower s2;
            matches = length (filter (\<lambda>(c1, c2). c1 = c2) (zip t1 t2));
            max_length = max (length t1) (length t2)
        in if max_length > 0 then real matches / real max_length else 0.0))"

subsection \<open>\<^verbatim>\<open>_check_brand_impersonation\<close>\<close>

definition homograph_mappings :: "(string \<times> string) list" where
  "homograph_mappings =
    [(''0'', ''o''), (''1'', ''l''), (''3'', ''e''), (''4'', ''a''), (''5'', ''s''),
     (''6'', ''b''), (''7'', ''t''), (''rn'', ''m''), (''cl'', ''d''), (''vv'', ''w''),
     (''goog1e'', ''google''), (''paypai'', ''paypal'')]"

text \<open>\<^verbatim>\<open>for tld in [...]: clean_domain = clean_domain.replace(tld, "")\<close>\<close>

fun strip_tlds :: "string list \<Rightarrow> string \<Rightarrow> string" where
  "strip_tlds [] clean_domain = clean_domain"
| "strip_tlds (tld # tlds) clean_domain = strip_tlds tlds (str_replace tld '''' clean_domain)"

text \<open>\<^verbatim>\<open>for k, v in homograph_mappings.items(): mapped_part = mapped_part.replace(k, v)\<close>\<close>

fun apply_mappings :: "(string \<times> string) list \<Rightarrow> string \<Rightarrow> string" where
  "apply_mappings [] mapped_part = mapped_part"
| "apply_mappings ((k, v) # kvs) mapped_part = apply_mappings kvs (str_replace k v mapped_part)"

definition security_terms :: "string list" where
  "security_terms =
    [''secure'', ''login'', ''verify'', ''account'', ''signin'', ''update'', ''confirm'']"

text \<open>
  The loop over the brands that sets \<^verbatim>\<open>path_score\<close>; the inner loop over the security
  terms stops at the first hit, so it is an existence test.
\<close>

fun path_score_loop :: "string list \<Rightarrow> string \<Rightarrow> real \<Rightarrow> real" where
  "path_score_loop [] path path_score = path_score"
| "path_score_loop (brand # brands) path path_score =
    (if str_in brand (lower path)
     then
       (let path_parts = split_on CHR ''/'' (lower path);
            ps1 = (if list_ex (\<lambda>term. term \<in> set path_parts
                                 \<or> str_in (term @ ''-'' @ brand) (lower path)
                                 \<or> str_in (brand @ ''-'' @ term) (lower path))
                        security_terms
                   then 0.9 else path_score);
            ps2 = (if ps1 < 0.5 then 0.7 else ps1)
        in path_score_loop brands path ps2)
     else path_score_loop brands path path_score)"

definition check_brand_impersonation :: "string \<Rightarrow> string \<Rightarrow> real" where
  "check_brand_impersonation domain path =
    (let clean_domain =
           str_replace ''www.'' ''''
             (strip_tlds
                ([''.com'', ''.org'', ''.net'', ''.edu'', ''.gov'', ''.io'', ''.co'', ''.us'',
                  ''.ca'', ''.uk''] @ suspicious_tlds)
                (lower domain));
         domain_parts = split_where (\<lambda>c. c = CHR ''.'' \<or> c = CHR ''-'') clean_domain;
         mapped_domain_parts = map (apply_mappings homograph_mappings) domain_parts;
         parts_to_check = domain_parts @ mapped_domain_parts;
         found1 =
           list_ex (\<lambda>brand.
               brand \<in> set parts_to_check
               \<or> list_ex (\<lambda>part. length part > 3 \<and> length brand > 3
                                 \<and> string_similarity part brand > 0.8)
                    parts_to_check)
             popular_brands;
         found2 =
           (found1
            \<or> list_ex (\<lambda>brand.
                   list_ex (\<lambda>part. length part > length brand \<and> str_in brand part)
                     parts_to_check)
                 popular_brands);
         brand_in_domain =
           (found2
            \<or> (count_char CHR ''.'' domain \<ge> 2
                \<and> list_ex (\<lambda>brand.
                       str_in (brand @ ''.com'') domain
                       \<and> domain \<noteq> ''www.'' @ brand @ ''.com''
                       \<and> domain \<noteq> brand @ ''.com'')
                     popular_brands));
         path_score = path_score_loop popular_brands path 0.0
     in if brand_in_domain then 0.9
        else if path_score > 0.5 then path_score
        else 0.0)"

subsection \<open>\<^verbatim>\<open>_check_redirect_patterns\<close>\<close>

definition redirect_patterns :: "string list" where
  "redirect_patterns =
    [''url='', ''redirect='', ''link='', ''goto='', ''to='', ''target='', ''u='', ''r='',
     ''return='', ''return_to='', ''returnto='', ''return-to='', ''cgi-bin/redirect.cgi'',
     ''out/'', ''window.location='', ''.php?url='', ''redir/'', ''redirect/'', ''go/'',
     ''out?'', ''transfer'', ''linkto='', ''visit='', ''forward='', ''navigate='', ''.php?'']"

text \<open>
  \<^verbatim>\<open>re.search(r'(https?:|url=|redirect=).*?(https?:|url=|redirect=)', url)\<close>: a marker,
  then a second marker later in the string with no newline between them.
\<close>

definition redirect_markers :: "string list" where
  "redirect_markers = [''http:'', ''https:'', ''url='', ''redirect='']"

fun marker_ahead :: "string \<Rightarrow> bool" where
  "marker_ahead [] = False"
| "marker_ahead (c # cs) =
    (list_ex (\<lambda>m. startswith (c # cs) m) redirect_markers
     \<or> (c \<noteq> CHR 0x0A \<and> marker_ahead cs))"

fun has_multiple_redirects :: "string \<Rightarrow> bool" where
  "has_multiple_redirects [] = False"
| "has_multiple_redirects (c # cs) =
    (list_ex (\<lambda>m. startswith (c # cs) m \<and> marker_ahead (drop (length m) (c # cs)))
       redirect_markers
     \<or> has_multiple_redirects cs)"

text \<open>
  \<^verbatim>\<open>re.search(r'[a-zA-Z0-9+/]{30,}={0,2}(?:[&?]|$)', url)\<close>: a run of at least 30
  characters of the base64 alphabet that ends the alphabet run, then at most two
  \<^verbatim>\<open>=\<close>, then \<^verbatim>\<open>&\<close>, \<^verbatim>\<open>?\<close> or the end of the string (or its final newline).
\<close>

definition is_base64_char :: "char \<Rightarrow> bool" where
  "is_base64_char c =
    (let n = (of_char c :: nat)
     in (97 \<le> n \<and> n \<le> 122) \<or> (65 \<le> n \<and> n \<le> 90) \<or> (48 \<le> n \<and> n \<le> 57)
        \<or> c = CHR ''+'' \<or> c = CHR ''/'')"

definition base64_end :: "string \<Rightarrow> bool" where
  "base64_end s = (s = [] \<or> s = [CHR 0x0A] \<or> startswith s ''&'' \<or> startswith s ''?'')"

definition base64_tail :: "string \<Rightarrow> bool" where
  "base64_tail s =
    (base64_end s
     \<or> (startswith s ''='' \<and> base64_end (drop 1 s))
     \<or> (startswith s ''=='' \<and> base64_end (drop 2 s)))"

fun has_base64 :: "string \<Rightarrow> bool" where
  "has_base64 [] = False"
| "has_base64 (c # cs) =
    ((length (takeWhile is_base64_char (c # cs)) \<ge> 30
      \<and> base64_tail (dropWhile is_base64_char (c # cs)))
     \<or> has_base64 cs)"

definition check_redirect_patterns :: "string \<Rightarrow> real" where
  "check_redirect_patterns url =
    (let has_encoded_url = (str_in ''http%3A'' url \<or> str_in ''https%3A'' url);
         multiple = has_multiple_redirects url;
         base64 = has_base64 url
     in if list_ex (\<lambda>pattern. str_in pattern (lower url)) redirect_patterns
        then (if has_encoded_url \<or> base64 \<or> multiple then 0.9 else 0.8)
        else if has_encoded_url then 0.7
        else if base64 then 0.6
        else if multiple then 0.7
        else 0.0)"

section \<open>Library functions used by \<^verbatim>\<open>extract_from_url\<close>\<close>

subsection \<open>\<^verbatim>\<open>urllib.parse.urlparse\<close>\<close>

datatype error = ValueError | KeyError

record parse_result =
  url_scheme :: string
  url_netloc :: string
  url_path :: string
  url_params :: string
  url_query :: string
  url_fragment :: string

definition scheme_chars :: string where
  "scheme_chars = ''abcdefghijklmnopqrstuvwxyzABCDEFGHIJKLMNOPQRSTUVWXYZ0123456789+-.''"

definition uses_params :: "string list" where
  "uses_params =
    ['''', ''ftp'', ''hdl'', ''prospero'', ''http'', ''imap'', ''https'', ''shttp'', ''rtsp'',
     ''rtsps'', ''rtspu'', ''sip'', ''sips'', ''mms'', ''sftp'', ''tel'']"

definition is_ascii_alpha :: "char \<Rightarrow> bool" where
  "is_ascii_alpha c =
    (let n = (of_char c :: nat) in (65 \<le> n \<and> n \<le> 90) \<or> (97 \<le> n \<and> n \<le> 122))"

text \<open>\<^verbatim>\<open>s.partition(c)\<close>: the text before the first \<^verbatim>\<open>c\<close> and the text after it.\<close>

definition before_first :: "char \<Rightarrow> string \<Rightarrow> string" where
  "before_first c s = takeWhile (\<lambda>x. x \<noteq> c) s"

definition after_first :: "char \<Rightarrow> string \<Rightarrow> string" where
  "after_first c s = drop 1 (dropWhile (\<lambda>x. x \<noteq> c) s)"

text \<open>
  \<^verbatim>\<open>urlsplit\<close> (CPython 3.11) returns scheme, netloc, path, query and fragment, or raises
  \<^verbatim>\<open>ValueError\<close> for unbalanced brackets in the netloc or a bracketed host that the
  \<^verbatim>\<open>ipaddress\<close> module rejects. That last check is the parameter \<open>bracketed_host_ok\<close>.
  \<^verbatim>\<open>_checknetloc\<close> never raises on code points below 256.
\<close>

definition urlsplit ::
  "(string \<Rightarrow> bool) \<Rightarrow> string \<Rightarrow> error + (string \<times> string \<times> string \<times> string \<times> string)"
where
  "urlsplit bracketed_host_ok url0 =
    (let url1 = filter (\<lambda>c. c \<noteq> CHR 0x09 \<and> c \<noteq> CHR 0x0D \<and> c \<noteq> CHR 0x0A)
                  (dropWhile (\<lambda>c. (of_char c :: nat) \<le> 32) url0);
         head = before_first CHR '':'' url1;
         has_scheme = (CHR '':'' \<in> set url1 \<and> head \<noteq> [] \<and> is_ascii_alpha (hd url1)
                       \<and> list_all (\<lambda>c. c \<in> set scheme_chars) head);
         scheme = (if has_scheme then lower head else []);
         url2 = (if has_scheme then after_first CHR '':'' url1 else url1);
         has_netloc = startswith url2 ''//'';
         is_delim = (\<lambda>c. c = CHR ''/'' \<or> c = CHR ''?'' \<or> c = CHR ''#'');
         netloc = (if has_netloc then takeWhile (\<lambda>c. \<not> is_delim c) (drop 2 url2) else []);
         url3 = (if has_netloc then dropWhile (\<lambda>c. \<not> is_delim c) (drop 2 url2) else url2);
         open_br = (CHR ''['' \<in> set netloc);
         close_br = (CHR '']'' \<in> set netloc);
         fragment = (if CHR ''#'' \<in> set url3 then after_first CHR ''#'' url3 else []);
         url4 = before_first CHR ''#'' url3;
         query = (if CHR ''?'' \<in> set url4 then after_first CHR ''?'' url4 else []);
         url5 = before_first CHR ''?'' url4
     in if has_netloc \<and> ((open_br \<and> \<not> close_br) \<or> (close_br \<and> \<not> open_br)) then Inl ValueError
        else if has_netloc \<and> open_br \<and> close_br
                \<and> \<not> bracketed_host_ok (before_first CHR '']'' (after_first CHR ''['' netloc))
          then Inl ValueError
        else Inr (scheme, netloc, url5, query, fragment))"

text \<open>\<^verbatim>\<open>_splitparams\<close>, called when the path contains a semicolon.\<close>

definition splitparams :: "string \<Rightarrow> string \<times> string" where
  "splitparams url =
    (if CHR ''/'' \<in> set url
     then
       (let tail = rev (takeWhile (\<lambda>c. c \<noteq> CHR ''/'') (rev url));
            front = rev (dropWhile (\<lambda>c. c \<noteq> CHR ''/'') (rev url))
        in if CHR '';'' \<in> set tail
           then (front @ before_first CHR '';'' tail, after_first CHR '';'' tail)
           else (url, []))
     else (before_first CHR '';'' url, after_first CHR '';'' url))"

definition urlparse :: "(string \<Rightarrow> bool) \<Rightarrow> string \<Rightarrow> error + parse_result" where
  "urlparse bracketed_host_ok url =
    (case urlsplit bracketed_host_ok url of
       Inl e \<Rightarrow> Inl e
     | Inr (scheme, netloc, url', query, fragment) \<Rightarrow>
         (let (path, params) =
                (if scheme \<in> set uses_params \<and> CHR '';'' \<in> set url' then splitparams url'
                 else (url', []))
          in Inr \<lparr> url_scheme = scheme, url_netloc = netloc, url_path = path,
                   url_params = params, url_query = query, url_fragment = fragment \<rparr>))"

subsection \<open>\<^verbatim>\<open>hashlib.md5\<close>\<close>

text \<open>
  The MD5 message digest (RFC 1321) on bytes and 32-bit words, both as natural numbers;
  additions are taken modulo \<open>2^32\<close>. \<open>md5_K\<close> holds the constants
  \<open>floor (2^32 * |sin (i + 1)|)\<close> and \<open>md5_shifts\<close> the rotation amounts.
\<close>

definition md5_K :: "nat list" where
  "md5_K =
    [0xd76aa478, 0xe8c7b756, 0x242070db, 0xc1bdceee,
     0xf57c0faf, 0x4787c62a, 0xa8304613, 0xfd469501,
     0x698098d8, 0x8b44f7af, 0xffff5bb1, 0x895cd7be,
     0x6b901122, 0xfd987193, 0xa679438e, 0x49b40821,
     0xf61e2562, 0xc040b340, 0x265e5a51, 0xe9b6c7aa,
     0xd62f105d, 0x02441453, 0xd8a1e681, 0xe7d3fbc8,
     0x21e1cde6, 0xc33707d6, 0xf4d50d87, 0x455a14ed,
     0xa9e3e905, 0xfcefa3f8, 0x676f02d9, 0x8d2a4c8a,
     0xfffa3942, 0x8771f681, 0x6d9d6122, 0xfde5380c,
     0xa4beea44, 0x4bdecfa9, 0xf6bb4b60, 0xbebfbc70,
     0x289b7ec6, 0xeaa127fa, 0xd4ef3085, 0x04881d05,
     0xd9d4d039, 0xe6db99e5, 0x1fa27cf8, 0xc4ac5665,
     0xf4292244, 0x432aff97, 0xab9423a7, 0xfc93a039,
     0x655b59c3, 0x8f0ccc92, 0xffeff47d, 0x85845dd1,
     0x6fa87e4f, 0xfe2ce6e0, 0xa3014314, 0x4e0811a1,
     0xf7537e82, 0xbd3af235, 0x2ad7d2bb, 0xeb86d391]"

definition md5_shifts :: "nat list" where
  "md5_shifts =
    [7, 12, 17, 22, 7, 12, 17, 22, 7, 12, 17, 22, 7, 12, 17, 22,
     5, 9, 14, 20, 5, 9, 14, 20, 5, 9, 14, 20, 5, 9, 14, 20,
     4, 11, 16, 23, 4, 11, 16, 23, 4, 11, 16, 23, 4, 11, 16, 23,
     6, 10, 15, 21, 6, 10, 15, 21, 6, 10, 15, 21, 6, 10, 15, 21]"

text \<open>Addition, complement and left rotation of 32-bit words.\<close>

definition add32 :: "nat \<Rightarrow> nat \<Rightarrow> nat" where
  "add32 x y = (x + y) mod 4294967296"

definition not32 :: "nat \<Rightarrow> nat" where
  "not32 x = 4294967295 - x"

definition rotl32 :: "nat \<Rightarrow> nat \<Rightarrow> nat" where
  "rotl32 s x = (x * 2 ^ s) mod 4294967296 + x div 2 ^ (32 - s)"

text \<open>The \<open>n\<close> low bytes of a number, least significant first.\<close>

fun le_bytes :: "nat \<Rightarrow> nat \<Rightarrow> nat list" where
  "le_bytes 0 x = []"
| "le_bytes (Suc n) x = x mod 256 # le_bytes n (x div 256)"

text \<open>
  Padding: the byte 0x80, zero bytes up to 56 modulo 64, then the length of the message
  in bits as 8 bytes.
\<close>

definition md5_pad :: "nat list \<Rightarrow> nat list" where
  "md5_pad msg =
    (let len = length msg;
         zeros = (if len mod 64 < 56 then 55 - len mod 64 else 119 - len mod 64)
     in msg @ [0x80] @ replicate zeros 0 @ le_bytes 8 ((8 * len) mod 2 ^ 64))"

text \<open>The bytes as little-endian 32-bit words.\<close>

fun le_words :: "nat list \<Rightarrow> nat list" where
  "le_words (b0 # b1 # b2 # b3 # rest) =
     (b0 + 256 * b1 + 65536 * b2 + 16777216 * b3) # le_words rest"
| "le_words _ = []"

text \<open>The mixing function and the message index of round \<open>i\<close>.\<close>

definition md5_F :: "nat \<Rightarrow> nat \<Rightarrow> nat \<Rightarrow> nat \<Rightarrow> nat" where
  "md5_F i B C D =
    (if i < 16 then (B AND C) OR (not32 B AND D)
     else if i < 32 then (D AND B) OR (not32 D AND C)
     else if i < 48 then B XOR C XOR D
     else C XOR (B OR not32 D))"

definition md5_g :: "nat \<Rightarrow> nat" where
  "md5_g i =
    (if i < 16 then i
     else if i < 32 then (5 * i + 1) mod 16
     else if i < 48 then (3 * i + 5) mod 16
     else (7 * i) mod 16)"

text \<open>One of the 64 rounds on the state \<open>(A, B, C, D)\<close>, and \<open>n\<close> rounds from round \<open>i\<close>.\<close>

fun md5_round :: "nat list \<Rightarrow> nat \<Rightarrow> nat \<times> nat \<times> nat \<times> nat \<Rightarrow> nat \<times> nat \<times> nat \<times> nat" where
  "md5_round M i (A, B, C, D) =
    (D,
     add32 B (rotl32 (md5_shifts ! i)
       (add32 (add32 (add32 (md5_F i B C D) A) (md5_K ! i)) (M ! md5_g i))),
     B, C)"

fun md5_rounds :: "nat list \<Rightarrow> nat \<Rightarrow> nat \<Rightarrow> nat \<times> nat \<times> nat \<times> nat \<Rightarrow> nat \<times> nat \<times> nat \<times> nat" where
  "md5_rounds M i 0 st = st"
| "md5_rounds M i (Suc n) st = md5_rounds M (Suc i) n (md5_round M i st)"

text \<open>One block of 16 words, then all blocks of the padded message.\<close>

fun md5_block :: "nat \<times> nat \<times> nat \<times> nat \<Rightarrow> nat list \<Rightarrow> nat \<times> nat \<times> nat \<times> nat" where
  "md5_block (a0, b0, c0, d0) M =
     (case md5_rounds M 0 64 (a0, b0, c0, d0) of
        (A, B, C, D) \<Rightarrow> (add32 a0 A, add32 b0 B, add32 c0 C, add32 d0 D))"

fun md5_blocks :: "nat \<times> nat \<times> nat \<times> nat \<Rightarrow> nat list \<Rightarrow> nat \<times> nat \<times> nat \<times> nat" where
  "md5_blocks st ws = (if length ws < 16 then st else md5_blocks (md5_block st (take 16 ws)) (drop 16 ws))"

declare md5_blocks.simps [simp del]

text \<open>The 16 bytes of the digest.\<close>

definition md5_digest :: "nat list \<Rightarrow> nat list" where
  "md5_digest msg =
    (case md5_blocks (0x67452301, 0xefcdab89, 0x98badcfe, 0x10325476) (le_words (md5_pad msg)) of
       (A, B, C, D) \<Rightarrow> concat (map (le_bytes 4) [A, B, C, D]))"

text \<open>\<^verbatim>\<open>int(hashlib.md5(data).hexdigest(), 16)\<close>: the digest read as a big-endian number.\<close>

definition md5_int :: "nat list \<Rightarrow> nat" where
  "md5_int msg = foldl (\<lambda>acc b. 256 * acc + b) 0 (md5_digest msg)"

subsection \<open>\<^verbatim>\<open>str.encode\<close> (UTF-8)\<close>

definition encode_utf8 :: "string \<Rightarrow> nat list" where
  "encode_utf8 s =
    concat (map (\<lambda>c. let n = (of_char c :: nat)
                      in if n < 128 then [n] else [192 + n div 64, 128 + n mod 64]) s)"

section \<open>\<^verbatim>\<open>extract_from_url\<close>\<close>

text \<open>The body of the \<^verbatim>\<open>try\<close> block; \<open>Inl\<close> is an exception raised inside it.\<close>

definition extract_from_url_try :: "(string \<Rightarrow> bool) \<Rightarrow> string \<Rightarrow> error + features" where
  "extract_from_url_try bracketed_host_ok url =
    (case urlparse bracketed_host_ok url of
       Inl e \<Rightarrow> Inl e
     | Inr parsed_url \<Rightarrow>
        (let domain = lower (url_netloc parsed_url);
             path = lower (url_path parsed_url);
             features = [];
             features = AList.update ''hasIPAddress''
               (if has_ip_address domain then 1.0 else 0.0) features;
             features = AList.update ''urlLength''
               (if length url > 100 then 1.0
                else if length url > 75 then 0.8
                else if length url > 50 then 0.5
                else 0.0) features;
             features = AList.update ''hasAtSymbol''
               (if str_in ''@'' url then 1.0 else 0.0) features;
             subdomain_count = count_char CHR ''.'' domain;
             features = AList.update ''hasManySubdomains''
               (if subdomain_count > 3 then 1.0
                else if subdomain_count > 2 then 0.7
                else 0.0) features;
             features = AList.update ''hasSuspiciousTLD''
               (if has_suspicious_tld domain then 1.0 else 0.0) features;
             features = AList.update ''hasBrandImpersonation''
               (check_brand_impersonation domain path) features;
             hyphen_count = count_char CHR ''-'' domain;
             features = AList.update ''hasHyphens''
               (if hyphen_count > 2 then 1.0
                else if hyphen_count > 1 then 0.7
                else if hyphen_count = 1 then 0.3
                else 0.0) features;
             features = AList.update ''hasRedirectPattern''
               (check_redirect_patterns url) features;
             features = AList.update ''hasDeceptiveHostname''
               (check_deceptive_hostname domain) features;
             features = AList.update ''isNotHttps''
               (if url_scheme parsed_url = ''https'' then 0.0 else 1.0) features;
             features = AList.update ''hasCertificateIssues'' 0.0 features;
             domain_hash = md5_int (encode_utf8 domain) mod 100;
             features = AList.update ''domainAge''
               (if list_ex (\<lambda>brand. str_in brand domain) popular_brands \<and> domain_hash < 80
                then (if domain_hash < 60 then 0.8 else 0.5)
                else 0.0) features
         in case map_of features ''domainAge'' of
              None \<Rightarrow> Inl KeyError
            | Some v \<Rightarrow> Inr (AList.update ''lowAlexaRank'' v features)))"

text \<open>\<^verbatim>\<open>except Exception: return {}\<close>\<close>

definition extract_from_url :: "(string \<Rightarrow> bool) \<Rightarrow> string \<Rightarrow> features" where
  "extract_from_url bracketed_host_ok url =
    (case extract_from_url_try bracketed_host_ok url of
       Inl e \<Rightarrow> []
     | Inr features \<Rightarrow> features)"

subsection \<open>The deceptive-hostname score as the specification words it\<close>

text \<open>
  Definitions that follow the specification's sentences. The host is lower-cased and
  every \<^verbatim>\<open>www.\<close> is removed; its labels are the pieces between the dots.
\<close>

text \<open>The confusable TLDs of the substitution table.\<close>

definition all_fake_tlds :: "string list" where
  "all_fake_tlds = concat (map snd tld_substitutions)"

text \<open>The highest applicable value of the four indicators.\<close>

definition deceptive_priority :: "bool \<Rightarrow> bool \<Rightarrow> bool \<Rightarrow> bool \<Rightarrow> real" where
  "deceptive_priority misleading_tld tld_in_name high_entropy long_host =
    (if misleading_tld then 1.0
     else if tld_in_name then 0.9
     else if high_entropy \<and> long_host then 0.8
     else if high_entropy then 0.7
     else if long_host then 0.5
     else 0.0)"

definition stripped_host :: "string \<Rightarrow> string" where
  "stripped_host host = str_replace ''www.'' '''' (lower host)"

text \<open>The part before the last dot, and the last label with its dot (empty for one label).\<close>

definition non_tld_portion :: "string \<Rightarrow> string" where
  "non_tld_portion h =
    (let labels = split_on CHR ''.'' h
     in if length labels > 1 then join_with ''.'' (butlast labels) else hd labels)"

definition tld_portion :: "string \<Rightarrow> string" where
  "tld_portion h =
    (let labels = split_on CHR ''.'' h
     in if length labels > 1 then CHR ''.'' # last labels else [])"

definition spec_misleading_tld :: "string \<Rightarrow> bool" where
  "spec_misleading_tld h =
    (non_tld_portion h \<in> set popular_brands \<and> tld_portion h \<in> set all_fake_tlds)"

definition spec_tld_in_name :: "string \<Rightarrow> bool" where
  "spec_tld_in_name h = list_ex (\<lambda>t. str_in t h) (suspicious_tlds @ [''.com'', ''.org'', ''.net''])"

definition first_label_entropy :: "string \<Rightarrow> real" where
  "first_label_entropy h = calculate_entropy (hd (split_on CHR ''.'' h))"


text \<open>
  The score with the entropy test only for a host of at least two labels.
\<close>

definition spec_deceptive :: "string \<Rightarrow> real" where
  "spec_deceptive host =
    (let h = stripped_host host
     in deceptive_priority (spec_misleading_tld h) (spec_tld_in_name h)
          (length (split_on CHR ''.'' h) > 1 \<and> first_label_entropy h > 3.5) (length h > 30))"

subsection \<open>The keys of a URL feature mapping\<close>

definition url_feature_keys :: "string list" where
  "url_feature_keys =
    [''hasIPAddress'', ''urlLength'', ''hasAtSymbol'', ''hasManySubdomains'',
     ''hasSuspiciousTLD'', ''hasBrandImpersonation'', ''hasHyphens'', ''hasRedirectPattern'',
     ''hasDeceptiveHostname'', ''isNotHttps'', ''hasCertificateIssues'', ''domainAge'',
     ''lowAlexaRank'']"

subsection \<open>The URL \<^verbatim>\<open>https://www.google.com\<close>\<close>

text \<open>The padded message block of the MD5 digest of \<^verbatim>\<open>www.google.com\<close>.\<close>

definition google_block :: "nat list" where
  "google_block = [779581303, 1735356263, 1663985004, 8416623, 0, 0, 0, 0, 0, 0, 0, 0, 0, 0, 112, 0]"

text \<open>The feature mapping of that URL.\<close>

definition google_features :: "(string \<times> real) list" where
  "google_features =
    [(''hasIPAddress'', 0), (''urlLength'', 0), (''hasAtSymbol'', 0), (''hasManySubdomains'', 0),
     (''hasSuspiciousTLD'', 0), (''hasBrandImpersonation'', 0.9), (''hasHyphens'', 0),
     (''hasRedirectPattern'', 0), (''hasDeceptiveHostname'', 0.9), (''isNotHttps'', 0),
     (''hasCertificateIssues'', 0), (''domainAge'', 0.8), (''lowAlexaRank'', 0.8)]"

section \<open>Properties of the scorer\<close>

text \<open>
  Claim C5. The threat level is Low exactly when the score is below 0.25, Medium exactly
  when it is at least 0.25 and below 0.55, and High exactly when it is at least 0.55; so
  0.25 itself is Medium and 0.55 itself is High.
\<close>

theorem threat_level_tiers:
  "(get_threat_level s = Low) = (s < 0.25)
   \<and> (get_threat_level s = Medium) = (0.25 \<le> s \<and> s < 0.55)
   \<and> (get_threat_level s = High) = (0.55 \<le> s)
   \<and> get_threat_level 0.25 = Medium
   \<and> get_threat_level 0.55 = High
   \<and> threatLevel (predict fs) = get_threat_level (score (predict fs))"
  by (auto simp: get_threat_level_def predict_def Let_def)

subsection \<open>The scoring loop computes two sums\<close>

lemma weight_of_nonneg: "0 \<le> weight_of f"
proof (cases "map_of feature_weights f")
  case None
  then show ?thesis by (simp add: weight_of_def)
next
  case (Some w)
  then have "(f, w) \<in> set feature_weights" by (rule map_of_SomeD)
  then have "0 \<le> w" by (auto simp: feature_weights_def)
  with Some show ?thesis by (simp add: weight_of_def)
qed

lemma predict_loop_fst:
  "fst (predict_loop fs (a, b, c)) = a + (\<Sum>(f, v)\<leftarrow>fs. spec_contribution f v)"
  by (induction fs arbitrary: a b c) (auto simp: Let_def spec_contribution_def)

lemma predict_loop_snd:
  "fst (snd (predict_loop fs (a, b, c))) = b + (\<Sum>(f, v)\<leftarrow>fs. weight_of f)"
  by (induction fs arbitrary: a b c) (auto simp: Let_def)

lemma sum_weights_nonneg: "0 \<le> (\<Sum>(f, v)\<leftarrow>fs. weight_of f)"
  by (induction fs) (auto simp: weight_of_nonneg)

lemma weighted_score_sums:
  "weighted_score fs =
     (if (\<Sum>(f, v)\<leftarrow>fs. weight_of f) > 0
      then (\<Sum>(f, v)\<leftarrow>fs. spec_contribution f v) / (\<Sum>(f, v)\<leftarrow>fs. weight_of f) else 0)"
  using predict_loop_fst [of fs 0 0 "[]"] predict_loop_snd [of fs 0 0 "[]"]
  by (auto simp: weighted_score_def split: prod.splits)

lemma weighted_score_spec: "weighted_score fs = spec_raw_score fs"
  using sum_weights_nonneg [of fs]
  by (auto simp: weighted_score_sums spec_raw_score_def)

text \<open>
  Claim C1. The score that \<^const>\<open>predict\<close> classifies is the one the specification
  describes: weighted contributions (times 1.5 for a critical feature above 0.5), divided
  by the sum of the weights of the features present (0 when that sum is 0), squashed by
  \<open>1 / (1 + e^(-12 (raw - 0.4)))\<close>, then raised by \<open>0.1 (n - 2)\<close> and capped at 1 when
  \<open>n \<ge> 3\<close> features have value above 0.5 and weight above 0.7.
\<close>

theorem predict_score_formula:
  "score (predict fs) = spec_score fs \<and> weighted_score fs = spec_raw_score fs"
proof -
  have "int (length xs) \<ge> 3 \<longleftrightarrow> length xs \<ge> 3" for xs :: "(string \<times> real) list"
    by linarith
  moreover have "real_of_int (int n - 2) = real (n - 2)" if "n \<ge> 3" for n :: nat
    using that by simp
  ultimately show ?thesis
    by (simp add: predict_def final_score_def spec_score_def Let_def suspicious_count_def
        weighted_score_spec)
qed

text \<open>
  Claim C2. The verdict is phishing exactly when the final score is strictly above 0.45;
  the confidence is \<open>|score - 0.5| * 2\<close> clamped to \<open>[0.6, 0.99]\<close> for a phishing verdict
  and to \<open>[0, 0.99]\<close> otherwise.
\<close>

theorem predict_classification:
  "isPhishing (predict fs) = (score (predict fs) > 0.45)
   \<and> confidence (predict fs) =
       (if isPhishing (predict fs) then min (max (\<bar>score (predict fs) - 0.5\<bar> * 2) 0.6) 0.99
        else min (max (\<bar>score (predict fs) - 0.5\<bar> * 2) 0) 0.99)"
  by (simp add: predict_def Let_def)

text \<open>
  Claim C9. No verdict is phishing and of threat level Low at once: a phishing verdict has
  a score above 0.45, and Low needs a score below 0.25.
\<close>

theorem phishing_never_low:
  "\<not> (isPhishing (predict fs) \<and> threatLevel (predict fs) = Low)"
  by (simp add: predict_def Let_def get_threat_level_def)

subsection \<open>Monotonicity of the raw weighted score\<close>

lemma spec_contribution_mono: "v1 \<le> v2 \<Longrightarrow> spec_contribution f v1 \<le> spec_contribution f v2"
  using weight_of_nonneg [of f]
  by (auto simp: spec_contribution_def mult_right_mono intro: order_trans [OF mult_right_mono])

lemma contribution_sum_update:
  "map_of fs k = Some v1 \<Longrightarrow>
   (\<Sum>(f, v)\<leftarrow>AList.update k v2 fs. spec_contribution f v) =
   (\<Sum>(f, v)\<leftarrow>fs. spec_contribution f v) - spec_contribution k v1 + spec_contribution k v2"
  by (induction fs) (auto split: if_splits)

lemma weight_sum_update:
  "map_of fs k = Some v1 \<Longrightarrow>
   (\<Sum>(f, v)\<leftarrow>AList.update k v2 fs. weight_of f) = (\<Sum>(f, v)\<leftarrow>fs. weight_of f)"
  by (induction fs) (auto split: if_splits)

text \<open>
  Claim C6. If feature \<open>k\<close> is present with value \<open>v1\<close> and \<open>v1 \<le> v2\<close>, then storing
  \<open>v2\<close> for \<open>k\<close>, all other features unchanged, does not lower the normalised score that
  \<^const>\<open>predict\<close> computes before the sigmoid. (The bounds \<open>0 \<le> v1\<close> and \<open>v2 \<le> 1\<close> of the
  claim are not needed.)
\<close>

theorem weighted_score_mono:
  assumes present: "map_of fs k = Some v1" and le: "v1 \<le> v2"
  shows "weighted_score fs \<le> weighted_score (AList.update k v2 fs)"
proof -
  let ?W = "\<Sum>(f, v)\<leftarrow>fs. weight_of f"
  let ?S = "\<Sum>(f, v)\<leftarrow>fs. spec_contribution f v"
  have S: "?S \<le> ?S - spec_contribution k v1 + spec_contribution k v2"
    using spec_contribution_mono [OF le, of k] by simp
  show ?thesis
  proof (cases "?W > 0")
    case True
    then show ?thesis
      using S present
      by (simp add: weighted_score_sums contribution_sum_update weight_sum_update
          divide_right_mono)
  next
    case False
    then show ?thesis
      using present by (simp add: weighted_score_sums weight_sum_update)
  qed
qed

theorem weighted_score_mono_witness:
  "map_of [(''hasIPAddress'', 0.2), (''urlLength'', 1)] ''hasIPAddress'' = Some (0.2::real)
   \<and> (0.2::real) \<le> 0.9
   \<and> weighted_score [(''hasIPAddress'', 0.2), (''urlLength'', 1)]
       \<le> weighted_score (AList.update ''hasIPAddress'' 0.9 [(''hasIPAddress'', 0.2), (''urlLength'', 1)])"
  using weighted_score_mono [of "[(''hasIPAddress'', 0.2), (''urlLength'', 1)]" "''hasIPAddress''" "0.2" "0.9"]
  by simp

section \<open>Properties of the explainer\<close>

subsection \<open>Rounding to a double\<close>

lemma exponent_search_ge: "e0 \<le> exponent_search n e0 x"
proof (induction n arbitrary: e0)
  case 0
  then show ?case by simp
next
  case (Suc n)
  show ?case using Suc [of "e0 + 1"] by simp
qed

lemma exponent_search_cases:
  "exponent_search n e0 x = e0 \<or> 2 powi (exponent_search n e0 x) \<le> x"
proof (induction n arbitrary: e0)
  case 0
  then show ?case by simp
next
  case (Suc n)
  show ?case
  proof (cases "x < 2 powi (e0 + 1)")
    case True
    then show ?thesis by simp
  next
    case False
    then show ?thesis using Suc [of "e0 + 1"] by auto
  qed
qed

lemma exponent_search_unique:
  "e0 \<le> e \<Longrightarrow> e - e0 \<le> int n \<Longrightarrow> 2 powi e \<le> x \<Longrightarrow> x < 2 powi (e + 1)
   \<Longrightarrow> exponent_search n e0 x = e"
proof (induction n arbitrary: e0)
  case 0
  then show ?case by simp
next
  case (Suc n)
  show ?case
  proof (cases "x < 2 powi (e0 + 1)")
    case True
    have "e < e0 + 1"
    proof (rule ccontr)
      assume "\<not> e < e0 + 1"
      then have "(2::real) powi (e0 + 1) \<le> 2 powi e" by (intro power_int_increasing) simp_all
      with True Suc.prems(3) show False by simp
    qed
    with Suc.prems(1) True show ?thesis by simp
  next
    case False
    have "e0 + 1 \<le> e"
    proof (rule ccontr)
      assume "\<not> e0 + 1 \<le> e"
      with Suc.prems(1) have "e = e0" by simp
      with Suc.prems(4) False show False by simp
    qed
    moreover have "e - (e0 + 1) \<le> int n" using Suc.prems(2) by simp
    ultimately have "exponent_search n (e0 + 1) x = e"
      using Suc.prems(3,4) by (intro Suc.IH)
    with False show ?thesis by simp
  qed
qed

lemma round_double_normal:
  assumes "2 powi e \<le> \<bar>x\<bar>" and "\<bar>x\<bar> < 2 powi (e + 1)" and "- 1022 \<le> e" and "e \<le> 1023"
  shows "round_double x = of_int (round_half_even (x / 2 powi (e - 52))) * 2 powi (e - 52)"
proof -
  have "exponent_search 2045 (- 1022) \<bar>x\<bar> = e"
    using assms by (intro exponent_search_unique) simp_all
  then show ?thesis by (simp add: round_double_def double_exponent_def Let_def)
qed

lemma round_half_even_ge_one: "1 \<le> y \<Longrightarrow> 1 \<le> round_half_even y"
proof -
  assume "1 \<le> y"
  then have "1 \<le> \<lfloor>y\<rfloor>" by simp
  then show ?thesis by (simp add: round_half_even_def Let_def)
qed

lemma round_double_lower:
  assumes "2 powi (- 1074) \<le> x"
  shows "2 powi (- 1074) \<le> round_double x"
proof -
  define e where "e = double_exponent x"
  define ulp :: real where "ulp = 2 powi (e - 52)"
  have pos: "0 < x" using assms by (smt (verit) zero_less_power_int zero_less_numeral)
  have abs: "\<bar>x\<bar> = x" using pos by simp
  have e_ge: "- 1022 \<le> e" unfolding e_def double_exponent_def by (rule exponent_search_ge)
  have ulp_ge: "2 powi (- 1074) \<le> ulp" unfolding ulp_def
    using e_ge by (intro power_int_increasing) simp_all
  have ulp_pos: "0 < ulp" unfolding ulp_def by simp
  have ulp_le: "ulp \<le> x"
  proof -
    from exponent_search_cases [of 2045 "- 1022" "\<bar>x\<bar>"]
    consider "e = - 1022" | "2 powi e \<le> x" unfolding e_def double_exponent_def abs by blast
    then show ?thesis
    proof cases
      case 1
      then show ?thesis using assms by (simp add: ulp_def)
    next
      case 2
      have "(2::real) powi (e - 52) \<le> 2 powi e" by (intro power_int_increasing) simp_all
      with 2 show ?thesis by (simp add: ulp_def)
    qed
  qed
  have "1 \<le> x / ulp" using ulp_le ulp_pos by simp
  then have "1 \<le> round_half_even (x / ulp)" by (rule round_half_even_ge_one)
  then have "(1::real) \<le> of_int (round_half_even (x / ulp))" by simp
  then have "1 * ulp \<le> of_int (round_half_even (x / ulp)) * ulp"
    using ulp_pos by (intro mult_right_mono) simp_all
  then have "ulp \<le> round_double x"
    by (simp add: round_double_def Let_def ulp_def e_def)
  with ulp_ge show ?thesis by simp
qed

subsection \<open>The two loops on a dictionary\<close>

lemma update_fresh: "k \<notin> fst ` set al \<Longrightarrow> AList.update k v al = al @ [(k, v)]"
  by (induction al) auto

lemma attribution_loop_distinct:
  "distinct (map fst acc @ map fst fs) \<Longrightarrow>
   attribution_loop fl fs (acc, t) =
     (acc @ filter (\<lambda>(f, v). v > 0) fs,
      foldl (\<lambda>t (f, v). fl (t + v)) t (filter (\<lambda>(f, v). v > 0) fs))"
proof (induction fs arbitrary: acc t)
  case Nil
  then show ?case by simp
next
  case (Cons p fs)
  obtain f v where p: "p = (f, v)" by (cases p)
  show ?case
  proof (cases "v > 0")
    case True
    have fresh: "f \<notin> fst ` set acc" using Cons.prems p by auto
    have "distinct (map fst (acc @ [(f, v)]) @ map fst fs)" using Cons.prems p by auto
    from Cons.IH [OF this] show ?thesis
      using True p by (simp add: update_fresh [OF fresh])
  next
    case False
    have "distinct (map fst acc @ map fst fs)" using Cons.prems p by auto
    from Cons.IH [OF this] show ?thesis using False p by simp
  qed
qed

lemma normalize_loop_distinct:
  "distinct (map fst acc @ map fst xs) \<Longrightarrow>
   normalize_loop fl t xs acc = acc @ map (\<lambda>(f, a). (f, fl (fl (a / t) * 100))) xs"
proof (induction xs arbitrary: acc)
  case Nil
  then show ?case by simp
next
  case (Cons p xs)
  obtain f a where p: "p = (f, a)" by (cases p)
  have fresh: "f \<notin> fst ` set acc" using Cons.prems p by auto
  have "distinct (map fst (acc @ [(f, fl (fl (a / t) * 100))]) @ map fst xs)"
    using Cons.prems p by auto
  from Cons.IH [OF this] show ?case
    using p by (simp add: update_fresh [OF fresh])
qed

lemma distinct_filter_fst: "distinct (map fst fs) \<Longrightarrow> distinct (map fst (filter P fs))"
  by (induction fs) (auto simp: image_iff)

lemma sum_positive_zero:
  "\<not> list_ex (\<lambda>(f, v). v > 0) fs \<Longrightarrow> filter (\<lambda>(f, v). v > 0) fs = []"
  by (induction fs) auto

lemma normalized_attributions_distinct:
  assumes "distinct (map fst fs)"
    and "list_ex (\<lambda>(f, v). v > 0) fs \<Longrightarrow> total_positive fl fs > 0"
  shows "normalized_attributions fl fs =
           map (\<lambda>(f, v). (f, fl (fl (v / total_positive fl fs) * 100))) (filter (\<lambda>(f, v). v > 0) fs)"
proof -
  have loop: "attribution_loop fl fs ([], 0) = (filter (\<lambda>(f, v). v > 0) fs, total_positive fl fs)"
    using attribution_loop_distinct [of "[]" fs fl 0] assms(1) by (simp add: total_positive_def)
  show ?thesis
  proof (cases "list_ex (\<lambda>(f, v). v > 0) fs")
    case True
    then have "total_positive fl fs > 0" by (rule assms(2))
    moreover have "distinct (map fst [] @ map fst (filter (\<lambda>(f, v). v > 0) fs))"
      using distinct_filter_fst [OF assms(1)] by simp
    ultimately show ?thesis
      unfolding normalized_attributions_def loop
      using normalize_loop_distinct [of "[]" "filter (\<lambda>(f, v). v > 0) fs" fl "total_positive fl fs"]
      by simp
  next
    case False
    then have e: "filter (\<lambda>(f, v). v > 0) fs = []" by (rule sum_positive_zero)
    show ?thesis unfolding normalized_attributions_def loop by (simp add: e total_positive_def)
  qed
qed

lemma explain_prediction_with_distinct:
  assumes "distinct (map fst fs)"
    and "list_ex (\<lambda>(f, v). v > 0) fs \<Longrightarrow> total_positive fl fs > 0"
  shows "explain_prediction_with fl fs =
    sort_key (\<lambda>e. - exp_attribution e) (map (spec_item fl fs) (filter (\<lambda>(f, v). v > 0) fs))"
proof -
  let ?F = "\<lambda>(f, a). \<lparr> exp_feature = f, exp_description = description_of f,
                exp_attribution = a,
                exp_value = (case map_of fs f of None \<Rightarrow> 0 | Some v \<Rightarrow> v) \<rparr>"
  let ?G = "\<lambda>(f, v). (f, fl (fl (v / total_positive fl fs) * 100))"
  let ?pos = "filter (\<lambda>(f, v). v > 0) fs"
  have "?F (?G p) = spec_item fl fs p" if "p \<in> set fs" for p
  proof -
    obtain f v where p: "p = (f, v)" by (cases p)
    with that assms(1) have "map_of fs f = Some v" by simp
    then show ?thesis by (simp add: p spec_item_def)
  qed
  then have eq: "map ?F (map ?G ?pos) = map (spec_item fl fs) ?pos"
    by simp
  show ?thesis
    by (simp only: explain_prediction_with_def normalized_attributions_distinct [OF assms] eq)
qed

lemma foldl_exact: "foldl (\<lambda>t (f, v). t + v) t xs = t + (\<Sum>(f, v)\<leftarrow>xs. v)" for t :: real
  by (induction xs arbitrary: t) auto

lemma sum_positive_nonneg: "0 \<le> (\<Sum>(f, v)\<leftarrow>filter (\<lambda>(f, v). v > 0) fs. v :: real)"
  by (induction fs) auto

lemma sum_positive_pos:
  "list_ex (\<lambda>(f, v). v > 0) fs \<Longrightarrow> 0 < (\<Sum>(f, v)\<leftarrow>filter (\<lambda>(f, v). v > 0) fs. v :: real)"
proof (induction fs)
  case Nil
  then show ?case by simp
next
  case (Cons p fs)
  then show ?case
    using sum_positive_nonneg [of fs] by (cases p) (auto simp: add_pos_nonneg)
qed

lemma total_positive_exact:
  "total_positive (\<lambda>x. x) fs = (\<Sum>(f, v)\<leftarrow>filter (\<lambda>(f, v). v > 0) fs. v)"
  by (simp add: total_positive_def foldl_exact)

lemma total_positive_exact_pos:
  "list_ex (\<lambda>(f, v). v > 0) fs \<Longrightarrow> total_positive (\<lambda>x. x) fs > 0"
  unfolding total_positive_exact by (rule sum_positive_pos)

lemma foldl_round_double_lower:
  assumes "\<forall>(f, v) \<in> set xs. 2 powi (- 1074) \<le> v"
  shows "2 powi (- 1074) \<le> t \<or> (0 \<le> t \<and> xs \<noteq> [])
         \<Longrightarrow> 2 powi (- 1074) \<le> foldl (\<lambda>t (f, v). round_double (t + v)) t xs"
  using assms
proof (induction xs arbitrary: t)
  case Nil
  then show ?case by simp
next
  case (Cons p xs)
  obtain f v where p: "p = (f, v)" by (cases p)
  have v: "2 powi (- 1074) \<le> v" using Cons.prems(2) p by simp
  have "0 \<le> t" using Cons.prems(1)
    by (smt (verit) zero_less_power_int zero_less_numeral)
  with v have "2 powi (- 1074) \<le> t + v" by simp
  then have "2 powi (- 1074) \<le> round_double (t + v)" by (rule round_double_lower)
  then have "2 powi (- 1074) \<le> foldl (\<lambda>t (f, v). round_double (t + v)) (round_double (t + v)) xs"
    using Cons.prems(2) by (intro Cons.IH) simp_all
  then show ?case by (simp add: p)
qed

lemma total_positive_round_double_pos:
  assumes "\<forall>(f, v) \<in> set fs. v > 0 \<longrightarrow> 1 / 2 ^ 1074 \<le> v \<and> v \<le> 1"
    and "list_ex (\<lambda>(f, v). v > 0) fs"
  shows "total_positive round_double fs > 0"
proof -
  have m: "(2::real) powi (- 1074) = 1 / 2 ^ 1074"
    by (simp add: power_int_minus field_simps)
  have ne: "filter (\<lambda>(f, v). v > 0) fs \<noteq> []"
    using assms(2) by (auto simp: list_ex_iff filter_empty_conv)
  have "\<forall>(f, v) \<in> set (filter (\<lambda>(f, v). v > 0) fs). 2 powi (- 1074) \<le> v"
    using assms(1) unfolding m by auto
  then have "2 powi (- 1074) \<le> total_positive round_double fs"
    unfolding total_positive_def using ne by (intro foldl_round_double_lower) simp_all
  moreover have "(0::real) < 2 powi (- 1074)" by simp
  ultimately show ?thesis by linarith
qed

lemma sum_attributions:
  "sum_list (map (exp_attribution \<circ> spec_item (\<lambda>x. x) fs) xs)
     = (\<Sum>(f, v)\<leftarrow>xs. v) / total_positive (\<lambda>x. x) fs * 100"
  by (induction xs) (auto simp: spec_item_def add_divide_distrib distrib_right)

lemma sum_list_sort_key: "sum_list (map g (sort_key h xs)) = sum_list (map g xs)" for g :: "'a \<Rightarrow> real"
proof -
  have "sum_mset (image_mset g (mset (sort_key h xs))) = sum_mset (image_mset g (mset xs))"
    by simp
  then show ?thesis by (simp only: mset_map [symmetric] sum_mset_sum_list)
qed

lemma sorted_desc_sort_key:
  "sorted_wrt (\<lambda>a b. a \<ge> b) (map g (sort_key (\<lambda>e. - g e) xs))" for g :: "'a \<Rightarrow> real"
proof -
  have "sorted (map (\<lambda>e. - g e) (sort_key (\<lambda>e. - g e) xs))" by (rule sorted_sort_key)
  then show ?thesis by (simp add: sorted_wrt_map)
qed

lemma exact_explanation_sum:
  assumes "distinct (map fst fs)" and "list_ex (\<lambda>(f, v). v > 0) fs"
  shows "sum_list (map exp_attribution (exact_explanation fs)) = 100"
proof -
  have pos: "total_positive (\<lambda>x. x) fs > 0" using assms(2) by (rule total_positive_exact_pos)
  have eq: "explain_prediction_with (\<lambda>x. x) fs =
      sort_key (\<lambda>e. - exp_attribution e)
        (map (spec_item (\<lambda>x. x) fs) (filter (\<lambda>(f, v). v > 0) fs))"
    by (rule explain_prediction_with_distinct [OF assms(1)]) (rule total_positive_exact_pos)
  show ?thesis
    unfolding exact_explanation_def eq sum_list_sort_key
    using sum_attributions [of fs "filter (\<lambda>(f, v). v > 0) fs"] pos
    by (simp add: total_positive_exact)
qed

text \<open>
  Claim C7, in floating point. For a mapping with distinct keys whose positive values are at least
  \<open>2^(-1074)\<close> (the least positive double) and at most 1, \<^const>\<open>explain_prediction\<close> returns,
  up to order, exactly one item for each feature with a value above 0 (none for the
  others); its attribution is value / total * 100 with the quotient and the product each
  rounded to a double, where total is the rounded running sum of the positive values; the
  list is in descending order of attribution; and in exact arithmetic the attributions sum
  to 100 when some value is positive.
\<close>

theorem explain_prediction_attribution:
  assumes "distinct (map fst fs)"
    and "\<forall>(f, v) \<in> set fs. v > 0 \<longrightarrow> 1 / 2 ^ 1074 \<le> v \<and> v \<le> 1"
  shows "mset (explain_prediction fs)
           = mset (map (spec_item round_double fs) (filter (\<lambda>(f, v). v > 0) fs))
    \<and> sorted_wrt (\<lambda>a b. a \<ge> b) (map exp_attribution (explain_prediction fs))
    \<and> (list_ex (\<lambda>(f, v). v > 0) fs \<longrightarrow>
         sum_list (map exp_attribution (exact_explanation fs)) = 100)"
proof (intro conjI impI)
  have eq: "explain_prediction fs =
      sort_key (\<lambda>e. - exp_attribution e)
        (map (spec_item round_double fs) (filter (\<lambda>(f, v). v > 0) fs))"
    unfolding explain_prediction_def
    by (rule explain_prediction_with_distinct [OF assms(1)])
       (rule total_positive_round_double_pos [OF assms(2)])
  show "mset (explain_prediction fs)
          = mset (map (spec_item round_double fs) (filter (\<lambda>(f, v). v > 0) fs))"
    by (simp add: eq)
  show "sorted_wrt (\<lambda>a b. a \<ge> b) (map exp_attribution (explain_prediction fs))"
    unfolding eq by (rule sorted_desc_sort_key)
  assume "list_ex (\<lambda>(f, v). v > 0) fs"
  with assms(1) show "sum_list (map exp_attribution (exact_explanation fs)) = 100"
    by (rule exact_explanation_sum)
qed

theorem explain_prediction_attribution_witness:
  "distinct (map fst [(''urlLength'', 1 / 2 :: real), (''hasAtSymbol'', 1), (''hasHyphens'', 0)])
   \<and> 1 / 2 ^ 1074 \<le> (1 / 2 :: real) \<and> (1 / 2 :: real) \<le> 1
   \<and> 1 / 2 ^ 1074 \<le> (1 :: real)
   \<and> list_ex (\<lambda>(f, v). v > 0) [(''urlLength'', 1 / 2 :: real), (''hasAtSymbol'', 1), (''hasHyphens'', 0)]
   \<and> mset (explain_prediction [(''urlLength'', 1 / 2), (''hasAtSymbol'', 1), (''hasHyphens'', 0)])
       = mset (map (spec_item round_double [(''urlLength'', 1 / 2), (''hasAtSymbol'', 1), (''hasHyphens'', 0)])
                [(''urlLength'', 1 / 2), (''hasAtSymbol'', 1)])
   \<and> sorted_wrt (\<lambda>a b. a \<ge> b) (map exp_attribution
         (explain_prediction [(''urlLength'', 1 / 2), (''hasAtSymbol'', 1), (''hasHyphens'', 0)]))
   \<and> sum_list (map exp_attribution
         (exact_explanation [(''urlLength'', 1 / 2), (''hasAtSymbol'', 1), (''hasHyphens'', 0)])) = 100"
  using explain_prediction_attribution
    [of "[(''urlLength'', 1 / 2), (''hasAtSymbol'', 1), (''hasHyphens'', 0)]"]
  by simp

subsection \<open>The rounded attributions of one mapping\<close>

lemma round_double_half: "round_double (1 / 2) = 1 / 2"
  using round_double_normal [of "- 1" "1 / 2"] by (simp add: round_half_even_def)

lemma round_double_three_halves: "round_double (3 / 2) = 3 / 2"
  using round_double_normal [of 0 "3 / 2"] by (simp add: round_half_even_def)

lemma round_double_third:
  "round_double (1 / 2 / (3 / 2)) = 6004799503160661 / 18014398509481984"
  using round_double_normal [of "- 2" "1 / 2 / (3 / 2)"] by (simp add: round_half_even_def)

lemma round_double_two_thirds:
  "round_double (1 / (3 / 2)) = 6004799503160661 / 9007199254740992"
  using round_double_normal [of "- 1" "1 / (3 / 2)"] by (simp add: round_half_even_def)

lemma round_double_33:
  "round_double (6004799503160661 / 18014398509481984 * 100) = 2345624805922133 / 70368744177664"
  using round_double_normal [of 5 "6004799503160661 / 18014398509481984 * 100"]
  by (simp add: round_half_even_def)

lemma round_double_66:
  "round_double (6004799503160661 / 9007199254740992 * 100) = 2345624805922133 / 35184372088832"
  using round_double_normal [of 6 "6004799503160661 / 9007199254740992 * 100"]
  by (simp add: round_half_even_def)

text \<open>
  Counterexample to claim C7 as worded: the attributions the program returns do not always sum to
  exactly 100. For the mapping urlLength 0.5, hasAtSymbol 1, hasHyphens 0 the running sum
  is 1.5, the two attributions are the doubles 66.66666666666666 and 33.33333333333333, and
  their sum is \<open>100 - 2^(-46)\<close>.
\<close>

theorem attributions_not_exactly_100:
  "list_ex (\<lambda>(f, v). v > 0) [(''urlLength'', 1 / 2 :: real), (''hasAtSymbol'', 1), (''hasHyphens'', 0)]
   \<and> map exp_attribution
        (explain_prediction [(''urlLength'', 1 / 2), (''hasAtSymbol'', 1), (''hasHyphens'', 0)])
       = [2345624805922133 / 35184372088832, 2345624805922133 / 70368744177664]
   \<and> sum_list (map exp_attribution
        (explain_prediction [(''urlLength'', 1 / 2), (''hasAtSymbol'', 1), (''hasHyphens'', 0)]))
       = 100 - 1 / 70368744177664
   \<and> sum_list (map exp_attribution
        (explain_prediction [(''urlLength'', 1 / 2), (''hasAtSymbol'', 1), (''hasHyphens'', 0)]))
       \<noteq> 100"
proof -
  let ?fs = "[(''urlLength'', 1 / 2 :: real), (''hasAtSymbol'', 1), (''hasHyphens'', 0)]"
  have loop: "attribution_loop round_double ?fs ([], 0)
                = ([(''urlLength'', 1 / 2), (''hasAtSymbol'', 1)], 3 / 2)"
    by (simp add: round_double_half round_double_three_halves)
  have norm: "normalized_attributions round_double ?fs
                = [(''urlLength'', 2345624805922133 / 70368744177664),
                   (''hasAtSymbol'', 2345624805922133 / 35184372088832)]"
    unfolding normalized_attributions_def loop
    by (simp only: prod.case normalize_loop.simps round_double_third round_double_two_thirds
          round_double_33 round_double_66)
       simp
  have attr: "map exp_attribution (explain_prediction ?fs)
                = [2345624805922133 / 35184372088832, 2345624805922133 / 70368744177664]"
    unfolding explain_prediction_def explain_prediction_with_def norm by simp
  show ?thesis unfolding attr by simp
qed

section \<open>Properties of the feature extractor\<close>

subsection \<open>The result of \<^verbatim>\<open>extract_from_url\<close>\<close>

lemma try_Inl: "urlparse ok url = Inl e \<Longrightarrow> extract_from_url_try ok url = Inl e"
  by (simp add: extract_from_url_try_def)

lemma try_Inr:
  assumes "urlparse ok url = Inr p"
  shows "\<exists>fs. extract_from_url_try ok url = Inr fs \<and> map fst fs = url_feature_keys
           \<and> (\<exists>v. map_of fs ''domainAge'' = Some v \<and> map_of fs ''lowAlexaRank'' = Some v)"
  unfolding extract_from_url_try_def assms url_feature_keys_def
  by (simp add: Let_def split del: if_split)

lemma if_error:
  "(if a then Inl ValueError else if b then Inl ValueError else Inr r) = Inl e \<Longrightarrow> e = ValueError"
  by (simp split: if_splits)

lemma urlsplit_error:
  assumes "urlsplit ok url = Inl e" shows "e = ValueError"
  using assms unfolding urlsplit_def Let_def by (rule if_error)

lemma urlparse_error:
  assumes "urlparse ok url = Inl e" shows "e = ValueError"
proof (cases "urlsplit ok url")
  case (Inl e')
  with assms have "e' = e" by (simp add: urlparse_def)
  with Inl show ?thesis by (simp add: urlsplit_error)
next
  case (Inr r)
  with assms show ?thesis by (simp add: urlparse_def Let_def split: prod.splits)
qed

lemma parse_google:
  "urlparse ok ''https://www.google.com''
   = Inr \<lparr> url_scheme = ''https'', url_netloc = ''www.google.com'', url_path = [],
            url_params = [], url_query = [], url_fragment = [] \<rparr>"
  by code_simp

lemma parse_bad: "urlparse ok ''http://['' = Inl ValueError"
  by code_simp

text \<open>
  Claim C8. \<^const>\<open>extract_from_url\<close> returns a mapping for every input string: an exception
  raised in the \<^verbatim>\<open>try\<close> block is caught and gives the empty mapping. The mapping is
  empty exactly when the block raised, which for these strings is exactly when
  \<^verbatim>\<open>urlparse\<close> raised \<^verbatim>\<open>ValueError\<close> (the \<^verbatim>\<open>KeyError\<close> of reading
  \<^verbatim>\<open>features["domainAge"]\<close> cannot occur); otherwise the mapping is the populated one
  that the block built. So a caller sees an empty or a populated mapping and nothing else.
\<close>

theorem extract_from_url_fails_soft:
  "(extract_from_url ok url = []) = (\<exists>e. extract_from_url_try ok url = Inl e)
   \<and> (extract_from_url ok url = []) = (urlparse ok url = Inl ValueError)
   \<and> extract_from_url_try ok url \<noteq> Inl KeyError
   \<and> (extract_from_url ok url \<noteq> []) = (extract_from_url_try ok url = Inr (extract_from_url ok url))"
proof (cases "urlparse ok url")
  case (Inl e)
  then have "e = ValueError" by (rule urlparse_error)
  with Inl show ?thesis by (simp add: extract_from_url_def try_Inl)
next
  case (Inr p)
  from try_Inr [OF this] obtain fs where
    fs: "extract_from_url_try ok url = Inr fs" "map fst fs = url_feature_keys" by blast
  then have "fs \<noteq> []" by (auto simp: url_feature_keys_def)
  with fs Inr show ?thesis by (simp add: extract_from_url_def)
qed

theorem extract_from_url_fails_soft_witness:
  "extract_from_url (\<lambda>h. True) ''http://['' = []
   \<and> extract_from_url (\<lambda>h. True) ''https://www.google.com'' \<noteq> []"
proof
  show "extract_from_url (\<lambda>h. True) ''http://['' = []"
    using extract_from_url_fails_soft [of "\<lambda>h. True" "''http://[''", THEN conjunct2, THEN conjunct1]
    by (simp add: parse_bad)
  show "extract_from_url (\<lambda>h. True) ''https://www.google.com'' \<noteq> []"
    using extract_from_url_fails_soft
      [of "\<lambda>h. True" "''https://www.google.com''", THEN conjunct2, THEN conjunct1]
    by (simp add: parse_google)
qed

text \<open>
  Claim C10. When \<^const>\<open>extract_from_url\<close> returns a non-empty mapping, its keys are
  exactly the thirteen keys hasIPAddress, urlLength, hasAtSymbol, hasManySubdomains,
  hasSuspiciousTLD, hasBrandImpersonation, hasHyphens, hasRedirectPattern,
  hasDeceptiveHostname, isNotHttps, hasCertificateIssues, domainAge, lowAlexaRank (in this
  order of insertion), and domainAge and lowAlexaRank have the same value.
\<close>

theorem extract_from_url_keys:
  assumes "extract_from_url ok url \<noteq> []"
  shows "map fst (extract_from_url ok url) = url_feature_keys
         \<and> (\<exists>v. map_of (extract_from_url ok url) ''domainAge'' = Some v
                \<and> map_of (extract_from_url ok url) ''lowAlexaRank'' = Some v)"
proof (cases "urlparse ok url")
  case (Inl e)
  then show ?thesis using assms by (simp add: extract_from_url_def try_Inl)
next
  case (Inr p)
  from try_Inr [OF this] obtain fs v where
    "extract_from_url_try ok url = Inr fs" "map fst fs = url_feature_keys"
    "map_of fs ''domainAge'' = Some v" "map_of fs ''lowAlexaRank'' = Some v" by blast
  then show ?thesis by (simp add: extract_from_url_def)
qed

theorem extract_from_url_keys_witness:
  "extract_from_url (\<lambda>h. True) ''https://www.google.com'' \<noteq> []
   \<and> map fst (extract_from_url (\<lambda>h. True) ''https://www.google.com'') = url_feature_keys
   \<and> (\<exists>v. map_of (extract_from_url (\<lambda>h. True) ''https://www.google.com'') ''domainAge'' = Some v
          \<and> map_of (extract_from_url (\<lambda>h. True) ''https://www.google.com'') ''lowAlexaRank'' = Some v)"
proof -
  from try_Inr [OF parse_google] obtain fs where
    fs: "extract_from_url_try (\<lambda>h. True) ''https://www.google.com'' = Inr fs"
      "map fst fs = url_feature_keys" by blast
  then have "fs \<noteq> []" by (auto simp: url_feature_keys_def)
  with fs have ne: "extract_from_url (\<lambda>h. True) ''https://www.google.com'' \<noteq> []"
    by (simp add: extract_from_url_def)
  from extract_from_url_keys [OF ne] ne show ?thesis by simp
qed

subsection \<open>The deceptive-hostname score\<close>

lemma misleading_gen:
  "list_ex (\<lambda>(real_tld, fake_tlds). list_ex (\<lambda>brand. d = brand \<and> t \<in> set fake_tlds) brands) subs
   = (d \<in> set brands \<and> t \<in> set (concat (map snd subs)))"
  by (induction subs) (auto simp: list_ex_iff)

lemma tld_in_name_eq:
  "list_ex (\<lambda>tld. str_in (CHR ''.'' # drop 1 tld) h) (suspicious_tlds @ [''.com'', ''.org'', ''.net''])
   = spec_tld_in_name h"
  by (simp add: suspicious_tlds_def spec_tld_in_name_def)

lemma deceptive_score:
  "(let score0 = (0 :: real);
        score1 = (if m then max score0 1.0 else score0);
        score2 = (if t then max score1 0.9 else score1)
    in if e \<and> l then max score2 0.8
       else if e then max score2 0.7
       else if l then max score2 0.5
       else score2) = deceptive_priority m t e l"
  by (simp add: Let_def deceptive_priority_def max_def)

lemma check_deceptive_hostname_eq: "check_deceptive_hostname host = spec_deceptive host"
proof -
  define h where "h = str_replace ''www.'' '''' (lower host)"
  define parts where "parts = split_on CHR ''.'' h"
  define m where "m = list_ex (\<lambda>(real_tld, fake_tlds).
          list_ex (\<lambda>brand. (if length parts > 1 then join_with ''.'' (butlast parts) else hd parts) = brand
                     \<and> (if length parts > 1 then CHR ''.'' # last parts else []) \<in> set fake_tlds)
            popular_brands) tld_substitutions"
  define t where "t = list_ex (\<lambda>tld. str_in (CHR ''.'' # drop 1 tld) h)
      (suspicious_tlds @ [''.com'', ''.org'', ''.net''])"
  define e where "e = ((if length parts > 1 then calculate_entropy (hd parts) else 0) > 3.5)"
  have code: "check_deceptive_hostname host =
    (let score0 = (0 :: real);
        score1 = (if m then max score0 1.0 else score0);
        score2 = (if t then max score1 0.9 else score1)
    in if e \<and> length h > 30 then max score2 0.8
       else if e then max score2 0.7
       else if length h > 30 then max score2 0.5
       else score2)"
    unfolding check_deceptive_hostname_def m_def t_def e_def parts_def h_def Let_def by (rule refl)
  have m': "m = spec_misleading_tld h"
    unfolding m_def misleading_gen
    by (simp only: spec_misleading_tld_def non_tld_portion_def tld_portion_def all_fake_tlds_def
          Let_def parts_def)
  have t': "t = spec_tld_in_name h" unfolding t_def by (rule tld_in_name_eq)
  have e': "e = (length (split_on CHR ''.'' h) > 1 \<and> first_label_entropy h > 3.5)"
    unfolding e_def first_label_entropy_def parts_def by simp
  show ?thesis
    unfolding code deceptive_score m' t' e'
    by (simp only: spec_deceptive_def stripped_host_def Let_def h_def)
qed







subsection \<open>The MD5 digest of \<^verbatim>\<open>www.google.com\<close>\<close>

lemma md5_rounds_numeral:
  "md5_rounds M i (numeral k) st = md5_rounds M (Suc i) (pred_numeral k) (md5_round M i st)"
  by (simp add: numeral_eq_Suc [of k])

lemma md5_rounds_add: "md5_rounds M i (a + b) st = md5_rounds M (i + a) b (md5_rounds M i a st)"
  by (induction a arbitrary: i st) simp_all

lemma le_bytes_numeral: "le_bytes (numeral k) x = x mod 256 # le_bytes (pred_numeral k) (x div 256)"
  by (simp add: numeral_eq_Suc [of k])

lemma replicate_num: "replicate (numeral k) x = x # replicate (pred_numeral k) x"
  by (simp add: numeral_eq_Suc [of k])

lemma google_bytes: "map of_char ''www.google.com'' = ([119, 119, 119, 46, 103, 111, 111, 103, 108, 101, 46, 99, 111, 109] :: nat list)"
  by simp

lemma google_pad: "md5_pad [119, 119, 119, 46, 103, 111, 111, 103, 108, 101, 46, 99, 111, 109] = [119, 119, 119, 46, 103, 111, 111, 103, 108, 101, 46, 99, 111, 109, 128, 0, 0, 0, 0, 0, 0, 0, 0, 0, 0, 0, 0, 0, 0, 0, 0, 0, 0, 0, 0, 0, 0, 0, 0, 0, 0, 0, 0, 0, 0, 0, 0, 0, 0, 0, 0, 0, 0, 0, 0, 0, 112, 0, 0, 0, 0, 0, 0, 0]"
  by (simp add: md5_pad_def le_bytes_numeral replicate_num)

lemma google_words: "le_words [119, 119, 119, 46, 103, 111, 111, 103, 108, 101, 46, 99, 111, 109, 128, 0, 0, 0, 0, 0, 0, 0, 0, 0, 0, 0, 0, 0, 0, 0, 0, 0, 0, 0, 0, 0, 0, 0, 0, 0, 0, 0, 0, 0, 0, 0, 0, 0, 0, 0, 0, 0, 0, 0, 0, 0, 112, 0, 0, 0, 0, 0, 0, 0] = google_block"
  by (simp add: google_block_def)

lemma google_rounds_0: "md5_rounds google_block 0 8 (1732584193, 4023233417, 2562383102, 271733878) = (826639135, 599157785, 2854110246, 2341004673)"
  by (simp add: md5_rounds_numeral google_block_def md5_F_def md5_g_def md5_K_def md5_shifts_def add32_def not32_def rotl32_def)

lemma google_rounds_1: "md5_rounds google_block 8 8 (826639135, 599157785, 2854110246, 2341004673) = (1396761079, 175199441, 743157181, 3010975494)"
  by (simp add: md5_rounds_numeral google_block_def md5_F_def md5_g_def md5_K_def md5_shifts_def add32_def not32_def rotl32_def)

lemma google_rounds_2: "md5_rounds google_block 16 8 (1396761079, 175199441, 743157181, 3010975494) = (2605616754, 939201226, 1185555149, 2353193604)"
  by (simp add: md5_rounds_numeral google_block_def md5_F_def md5_g_def md5_K_def md5_shifts_def add32_def not32_def rotl32_def)

lemma google_rounds_3: "md5_rounds google_block 24 8 (2605616754, 939201226, 1185555149, 2353193604) = (1434702165, 239345905, 278992740, 964325217)"
  by (simp add: md5_rounds_numeral google_block_def md5_F_def md5_g_def md5_K_def md5_shifts_def add32_def not32_def rotl32_def)

lemma google_rounds_4: "md5_rounds google_block 32 8 (1434702165, 239345905, 278992740, 964325217) = (1113389660, 1491975575, 2845043191, 508193160)"
  by (simp add: md5_rounds_numeral google_block_def md5_F_def md5_g_def md5_K_def md5_shifts_def add32_def not32_def rotl32_def)

lemma google_rounds_5: "md5_rounds google_block 40 8 (1113389660, 1491975575, 2845043191, 508193160) = (882351694, 205147948, 4111864164, 436298388)"
  by (simp add: md5_rounds_numeral google_block_def md5_F_def md5_g_def md5_K_def md5_shifts_def add32_def not32_def rotl32_def)

lemma google_rounds_6: "md5_rounds google_block 48 8 (882351694, 205147948, 4111864164, 436298388) = (1875777026, 204581710, 3314018674, 2486050101)"
  by (simp add: md5_rounds_numeral google_block_def md5_F_def md5_g_def md5_K_def md5_shifts_def add32_def not32_def rotl32_def)

lemma google_rounds_7: "md5_rounds google_block 56 8 (1875777026, 204581710, 3314018674, 2486050101) = (3493195785, 716904403, 902562930, 3247840683)"
  by (simp add: md5_rounds_numeral google_block_def md5_F_def md5_g_def md5_K_def md5_shifts_def add32_def not32_def rotl32_def)

lemma google_rounds64: "md5_rounds google_block 0 64 (1732584193, 4023233417, 2562383102, 271733878) = (3493195785, 716904403, 902562930, 3247840683)"
proof -
  have s0: "md5_rounds google_block 0 64 st = md5_rounds google_block 8 56 (md5_rounds google_block 0 8 st)" for st
    using md5_rounds_add [of google_block 0 8 56 st] by simp
  have s1: "md5_rounds google_block 8 56 st = md5_rounds google_block 16 48 (md5_rounds google_block 8 8 st)" for st
    using md5_rounds_add [of google_block 8 8 48 st] by simp
  have s2: "md5_rounds google_block 16 48 st = md5_rounds google_block 24 40 (md5_rounds google_block 16 8 st)" for st
    using md5_rounds_add [of google_block 16 8 40 st] by simp
  have s3: "md5_rounds google_block 24 40 st = md5_rounds google_block 32 32 (md5_rounds google_block 24 8 st)" for st
    using md5_rounds_add [of google_block 24 8 32 st] by simp
  have s4: "md5_rounds google_block 32 32 st = md5_rounds google_block 40 24 (md5_rounds google_block 32 8 st)" for st
    using md5_rounds_add [of google_block 32 8 24 st] by simp
  have s5: "md5_rounds google_block 40 24 st = md5_rounds google_block 48 16 (md5_rounds google_block 40 8 st)" for st
    using md5_rounds_add [of google_block 40 8 16 st] by simp
  have s6: "md5_rounds google_block 48 16 st = md5_rounds google_block 56 8 (md5_rounds google_block 48 8 st)" for st
    using md5_rounds_add [of google_block 48 8 8 st] by simp
  show ?thesis
    by (simp only: s0 s1 s2 s3 s4 s5 s6 google_rounds_0 google_rounds_1 google_rounds_2 google_rounds_3 google_rounds_4 google_rounds_5 google_rounds_6 google_rounds_7)
qed

lemma google_md5_block: "md5_block (1732584193, 4023233417, 2562383102, 271733878) google_block = (930812682, 445170524, 3464946032, 3519574561)"
  by (simp add: google_rounds64 add32_def)

lemma google_block_length: "length google_block = 16"
  by (simp add: google_block_def)

lemma google_md5_blocks: "md5_blocks (1732584193, 4023233417, 2562383102, 271733878) google_block = (930812682, 445170524, 3464946032, 3519574561)"
proof -
  have "md5_blocks (1732584193, 4023233417, 2562383102, 271733878) google_block = md5_blocks (md5_block (1732584193, 4023233417, 2562383102, 271733878) (take 16 google_block)) (drop 16 google_block)"
    by (subst md5_blocks.simps) (simp add: google_block_length)
  also have "\<dots> = md5_blocks (930812682, 445170524, 3464946032, 3519574561) []"
    by (simp add: google_block_length google_md5_block del: md5_block.simps)
  also have "\<dots> = (930812682, 445170524, 3464946032, 3519574561)"
    by (subst md5_blocks.simps) simp
  finally show ?thesis .
qed

lemma google_digest_bytes0: "le_bytes 4 930812682 = [10, 19, 123, 55]"
  by (simp add: le_bytes_numeral)

lemma google_digest_bytes1: "le_bytes 4 445170524 = [92, 195, 136, 26]"
  by (simp add: le_bytes_numeral)

lemma google_digest_bytes2: "le_bytes 4 3464946032 = [112, 225, 134, 206]"
  by (simp add: le_bytes_numeral)

lemma google_digest_bytes3: "le_bytes 4 3519574561 = [33, 114, 200, 209]"
  by (simp add: le_bytes_numeral)

lemma google_digest_int: "foldl (\<lambda>acc b. 256 * acc + b) 0 [10, 19, 123, 55, 92, 195, 136, 26, 112, 225, 134, 206, 33, 114, 200, 209] = (13393432720800512061960409011719424209 :: nat)"
  by simp

lemma google_md5: "md5_int [119, 119, 119, 46, 103, 111, 111, 103, 108, 101, 46, 99, 111, 109] = 13393432720800512061960409011719424209"
  by (simp only: md5_int_def md5_digest_def google_pad google_words google_md5_blocks prod.case list.map concat.simps
      google_digest_bytes0 google_digest_bytes1 google_digest_bytes2 google_digest_bytes3 append.simps google_digest_int)

lemma google_hash: "md5_int [119, 119, 119, 46, 103, 111, 111, 103, 108, 101, 46, 99, 111, 109] mod 100 = 9"
  by (simp add: google_md5)

subsection \<open>The features and the verdict of \<^verbatim>\<open>https://www.google.com\<close>\<close>

lemma lower_google: "lower ''www.google.com'' = ''www.google.com''"
  by code_simp

lemma lower_empty: "lower [] = []"
  by (simp add: lower_def)

lemma ip_google: "has_ip_address ''www.google.com'' = False"
  by code_simp

lemma at_google: "str_in ''@'' ''https://www.google.com'' = False"
  by code_simp

lemma dots_google: "count_char CHR ''.'' ''www.google.com'' = 2"
  by code_simp

lemma hyphens_google: "count_char CHR ''-'' ''www.google.com'' = 0"
  by code_simp

lemma tld_google: "has_suspicious_tld ''www.google.com'' = False"
  by code_simp

lemma brand_in_parts:
  assumes "brand \<in> set popular_brands"
    and "brand \<in> set (split_where (\<lambda>c. c = CHR ''.'' \<or> c = CHR ''-'')
           (str_replace ''www.'' ''''
             (strip_tlds
                ([''.com'', ''.org'', ''.net'', ''.edu'', ''.gov'', ''.io'', ''.co'', ''.us'',
                  ''.ca'', ''.uk''] @ suspicious_tlds)
                (lower domain))))"
  shows "check_brand_impersonation domain path = 0.9"
proof -
  define parts where "parts = split_where (\<lambda>c. c = CHR ''.'' \<or> c = CHR ''-'')
           (str_replace ''www.'' ''''
             (strip_tlds
                ([''.com'', ''.org'', ''.net'', ''.edu'', ''.gov'', ''.io'', ''.co'', ''.us'',
                  ''.ca'', ''.uk''] @ suspicious_tlds)
                (lower domain)))"
  define check where "check = parts @ map (apply_mappings homograph_mappings) parts"
  have "list_ex (\<lambda>brand.
               brand \<in> set check
               \<or> list_ex (\<lambda>part. length part > 3 \<and> length brand > 3
                                 \<and> string_similarity part brand > 0.8)
                    check)
             popular_brands"
    using assms unfolding list_ex_iff check_def parts_def by auto
  then show ?thesis
    unfolding check_brand_impersonation_def Let_def check_def parts_def by (simp only: simp_thms if_True)
qed

lemma google_is_brand: "''google'' \<in> set popular_brands"
  by (simp add: popular_brands_def)

lemma google_is_part:
  "''google'' \<in> set (split_where (\<lambda>c. c = CHR ''.'' \<or> c = CHR ''-'')
           (str_replace ''www.'' ''''
             (strip_tlds
                ([''.com'', ''.org'', ''.net'', ''.edu'', ''.gov'', ''.io'', ''.co'', ''.us'',
                  ''.ca'', ''.uk''] @ suspicious_tlds)
                (lower ''www.google.com''))))"
  by code_simp

lemma brand_google: "check_brand_impersonation ''www.google.com'' [] = 0.9"
  using google_is_brand google_is_part by (rule brand_in_parts)

lemma redirect_google: "check_redirect_patterns ''https://www.google.com'' = 0"
proof -
  have p: "list_ex (\<lambda>pattern. str_in pattern (lower ''https://www.google.com'')) redirect_patterns = False"
    by code_simp
  have e1: "str_in ''http%3A'' ''https://www.google.com'' = False" by code_simp
  have e2: "str_in ''https%3A'' ''https://www.google.com'' = False" by code_simp
  have m: "has_multiple_redirects ''https://www.google.com'' = False" by code_simp
  have b: "has_base64 ''https://www.google.com'' = False" by code_simp
  show ?thesis unfolding check_redirect_patterns_def Let_def p e1 e2 m b by simp
qed

lemma deceptive_google: "check_deceptive_hostname ''www.google.com'' = 0.9"
proof -
  have h: "stripped_host ''www.google.com'' = ''google.com''" by code_simp
  have tin: "spec_tld_in_name ''google.com'' = True" by code_simp
  have mis: "spec_misleading_tld ''google.com'' = False" by code_simp
  show ?thesis
    by (simp add: check_deceptive_hostname_eq spec_deceptive_def h tin mis deceptive_priority_def)
qed

lemma brand_in_google: "list_ex (\<lambda>brand. str_in brand ''www.google.com'') popular_brands = True"
  by code_simp

lemma enc_google:
  "encode_utf8 ''www.google.com'' = [119, 119, 119, 46, 103, 111, 111, 103, 108, 101, 46, 99, 111, 109]"
  by (simp add: encode_utf8_def)

lemma hash_google: "md5_int (encode_utf8 ''www.google.com'') mod 100 = 9"
  unfolding enc_google by (rule google_hash)

lemma extract_google: "extract_from_url ok ''https://www.google.com'' = google_features"
  unfolding extract_from_url_def extract_from_url_try_def parse_google google_features_def
  by (simp add: Let_def lower_google lower_empty ip_google at_google dots_google hyphens_google
        tld_google brand_google redirect_google deceptive_google brand_in_google hash_google
        del: str_in.simps)

lemma weighted_google: "weighted_score google_features = 251 / 700"
  by (simp add: weighted_score_sums google_features_def spec_contribution_def weight_of_def
        feature_weights_def critical_features_def)

lemma count_google: "suspicious_count google_features = 3"
  by (simp add: suspicious_count_def google_features_def weight_of_def feature_weights_def)

lemma exp_upper: "exp (87 / 175 :: real) < 13 / 7"
proof -
  have "exp (87 / 175 :: real) \<le> 1 + 87 / 175 + (87 / 175)\<^sup>2"
    by (rule exp_bound) simp_all
  also have "\<dots> < 13 / 7" by (simp add: power2_eq_square)
  finally show ?thesis .
qed

lemma exp_lower: "11 / 9 < exp (87 / 175 :: real)"
proof -
  have "(11 / 9 :: real) < 1 + 87 / 175" by simp
  also have "\<dots> \<le> exp (87 / 175)" by (rule exp_ge_add_one_self)
  finally show ?thesis .
qed

lemma final_google: "0.45 < final_score google_features \<and> final_score google_features < 0.55"
proof -
  define E where "E = exp (87 / 175 :: real)"
  have arg: "- 12 * (251 / 700 - 0.4) = (87 / 175 :: real)" by simp
  have up: "E < 13 / 7" and lo: "11 / 9 < E" unfolding E_def by (rule exp_upper, rule exp_lower)
  have pos: "0 < 1 + E" using lo by simp
  have s_lo: "0.35 < 1 / (1 + E)"
  proof -
    have "0.35 * (1 + E) < 1" using up by simp
    then show ?thesis using pos by (simp add: pos_less_divide_eq)
  qed
  have s_hi: "1 / (1 + E) < 0.45"
  proof -
    have "1 < 0.45 * (1 + E)" using lo by simp
    then show ?thesis using pos by (simp add: pos_divide_less_eq)
  qed
  have "final_score google_features = min (1 / (1 + E) + 0.1) 1"
    unfolding final_score_def weighted_google count_google arg E_def by (simp add: Let_def)
  then show ?thesis using s_lo s_hi by (simp add: min_def)
qed

text \<open>
  Claim C3. For the URL \<^verbatim>\<open>https://www.google.com\<close> the extractor returns
  hasIPAddress = 0, isNotHttps = 0 and hasSuspiciousTLD = 0, as the claim says, but also
  hasBrandImpersonation = 0.9, hasDeceptiveHostname = 0.9 and domainAge = lowAlexaRank = 0.8.
  The raw weighted score is 251/700 (about 0.359), the final score lies between 0.45 and
  0.55, and the verdict is phishing with threat level Medium, not the claim's
  non-phishing verdict of level Low.
\<close>

theorem google_flagged:
  "extract_from_url ok ''https://www.google.com'' = google_features
   \<and> weighted_score (extract_from_url ok ''https://www.google.com'') = 251 / 700
   \<and> 0.45 < score (predict (extract_from_url ok ''https://www.google.com''))
   \<and> score (predict (extract_from_url ok ''https://www.google.com'')) < 0.55
   \<and> isPhishing (predict (extract_from_url ok ''https://www.google.com''))
   \<and> threatLevel (predict (extract_from_url ok ''https://www.google.com'')) = Medium"
  unfolding extract_google
  using final_google
  by (simp add: weighted_google predict_def Let_def get_threat_level_def)

end
